theory Spec2Isabelle
  imports Main
begin

section \<open>Back-Git-Up: a shallow embedding of \<^verbatim>\<open>main.py\<close>\<close>

text \<open>
  The script enumerates the repositories of a GitHub account page by page, then clones or
  pulls each of them below a base directory, and repeats that pass every 24 hours.
  Everything the script does to the outside (HTTP requests, the file system, the git
  child processes, sleeping, the lines it prints) is explicit here: the outside is a
  record of oracles, the file system is a map, and every effect is appended to a trace.

  Scope of the model. Repository objects are the two fields the script reads
  (\<^verbatim>\<open>full_name\<close>, \<^verbatim>\<open>clone_url\<close>), both strings, as the listing endpoint
  returns them. The \<^verbatim>\<open>[VERBOSE]\<close> diagnostics and the progress bar are left out:
  they influence neither control flow nor results. Every other printed line is a
  \<open>message\<close> of the trace, one constructor per print statement.
\<close>

subsection \<open>Exceptions, messages, events\<close>

text \<open>
  The exception classes that can arise. \<open>GitHubAPIError status text\<close> is the
  \<^verbatim>\<open>Exception(f"GitHub API error: {status_code} - {text}")\<close> raised at line 37.
\<close>

datatype exn =
    TimeoutExpired
  | FileNotFoundError
  | FileExistsError
  | NotADirectoryError
  | OSError string
  | GitHubAPIError nat string
  | RequestException string
  | JSONDecodeError

text \<open>A \<^verbatim>\<open>pathlib.PurePosixPath\<close>: its root (empty, one slash or two) and its parts.\<close>

record path =
  root :: string
  parts :: "string list"

record repo_data =
  full_name :: string
  clone_url :: string

text \<open>
  The query of the listing request (line 29) and its \<^verbatim>\<open>Authorization\<close> header
  (line 17), kept as fields instead of one formatted URL.
\<close>

record api_request =
  page :: nat
  per_page :: nat
  affiliation :: string
  authorization :: string

record response =
  status_code :: nat
  body :: string  \<comment> \<open>\<^verbatim>\<open>response.text\<close>\<close>
  json :: "repo_data list option"  \<comment> \<open>\<open>None\<close>: the body is not JSON, \<^verbatim>\<open>response.json()\<close> raises\<close>

text \<open>One constructor per print statement outside verbose mode.\<close>

datatype message =
    FetchingRepositoryList                \<comment> \<open>line 25\<close>
  | FoundSoFar nat                        \<comment> \<open>line 50\<close>
  | FailedToUpdate string string          \<comment> \<open>line 103: name, stripped stderr\<close>
  | FailedToClone string string           \<comment> \<open>line 130: name, stripped stderr\<close>
  | TimeoutFor string                     \<comment> \<open>line 138\<close>
  | ErrorWith string exn                  \<comment> \<open>line 143\<close>
  | TokenNotFound                         \<comment> \<open>lines 168-169\<close>
  | BackingUpTo path                      \<comment> \<open>line 182\<close>
  | FoundTotal nat                        \<comment> \<open>line 187\<close>
  | Summary nat nat                       \<comment> \<open>lines 222-226: succeeded, failed\<close>
  | FatalError exn                        \<comment> \<open>line 233\<close>
  | SleepingFor24Hours                    \<comment> \<open>line 240\<close>

text \<open>
  The effects, in the order they happen. \<open>Sleep\<close> counts milliseconds, so that the
  half second of line 56 is a natural number; \<open>Run argv timeout\<close> is one
  \<^verbatim>\<open>subprocess.run\<close> with its timeout in seconds.
\<close>

datatype event =
    HttpGet api_request
  | Sleep nat
  | Mkdir path bool
  | Run "string list" nat
  | Write message

subsection \<open>The file system and \<^verbatim>\<open>pathlib\<close>\<close>

datatype node = RegularFile | PlainDirectory | WorkingCopy

type_synonym filesystem = "path \<Rightarrow> node option"

text \<open>\<^verbatim>\<open>str.split('/')\<close>.\<close>

fun split_sep :: "string \<Rightarrow> string list" where
  "split_sep [] = [[]]"
| "split_sep (c # cs) =
     (if c = CHR ''/'' then [] # split_sep cs
      else (case split_sep cs of [] \<Rightarrow> [[c]] | p # ps \<Rightarrow> (c # p) # ps))"

text \<open>\<^verbatim>\<open>posixpath.splitroot\<close>: exactly two leading slashes are a root of their own.\<close>

definition splitroot :: "string \<Rightarrow> string \<times> string" where
  "splitroot p =
     (if take 1 p \<noteq> ''/'' then ([], p)
      else if take 1 (drop 1 p) \<noteq> ''/'' \<or> take 1 (drop 2 p) = ''/'' then (''/'', drop 1 p)
      else (take 2 p, drop 2 p))"

text \<open>Parsing drops the empty components and the components \<^verbatim>\<open>.\<close>.\<close>

definition parse_path :: "string \<Rightarrow> path" where
  "parse_path s =
     (case splitroot s of
        (rt, rel) \<Rightarrow> \<lparr>root = rt, parts = filter (\<lambda>x. x \<noteq> [] \<and> x \<noteq> ''.'') (split_sep rel)\<rparr>)"

text \<open>\<^verbatim>\<open>base_dir / repo_name\<close>: an absolute right operand replaces the left one.\<close>

definition joinpath :: "path \<Rightarrow> string \<Rightarrow> path" where
  "joinpath p s =
     (if take 1 s = ''/'' then parse_path s
      else \<lparr>root = root p, parts = parts p @ parts (parse_path s)\<rparr>)"

definition parent :: "path \<Rightarrow> path" where
  "parent p = p\<lparr>parts := butlast (parts p)\<rparr>"

fun join_sep :: "string list \<Rightarrow> string" where
  "join_sep [] = []"
| "join_sep [x] = x"
| "join_sep (x # y # ys) = x @ ''/'' @ join_sep (y # ys)"

text \<open>\<^verbatim>\<open>str(path)\<close>.\<close>

definition str_path :: "path \<Rightarrow> string" where
  "str_path p = (if root p = [] \<and> parts p = [] then ''.'' else root p @ join_sep (parts p))"

definition exists_path :: "filesystem \<Rightarrow> path \<Rightarrow> bool" where
  "exists_path f p = (f p \<noteq> None)"

definition is_dir :: "filesystem \<Rightarrow> path \<Rightarrow> bool" where
  "is_dir f p = (f p = Some PlainDirectory \<or> f p = Some WorkingCopy)"

text \<open>\<^verbatim>\<open>os.mkdir\<close>: the directory must be new and its parent a directory.\<close>

definition os_mkdir :: "filesystem \<Rightarrow> path \<Rightarrow> exn + filesystem" where
  "os_mkdir f p =
     (if f p \<noteq> None then Inl FileExistsError
      else (case f (parent p) of
              None \<Rightarrow> Inl FileNotFoundError
            | Some RegularFile \<Rightarrow> Inl NotADirectoryError
            | Some _ \<Rightarrow> Inr (f(p \<mapsto> PlainDirectory))))"

text \<open>
  \<^verbatim>\<open>Path.mkdir(parents=..., exist_ok=True)\<close>, as \<^verbatim>\<open>pathlib\<close> writes it: try
  \<^verbatim>\<open>os.mkdir\<close>; when the parent is missing and \<^verbatim>\<open>parents\<close> is set, make the parent
  first and try again; any other error is swallowed when the path is a directory.
\<close>

function mkdir :: "bool \<Rightarrow> filesystem \<Rightarrow> path \<Rightarrow> exn + filesystem" where
  "mkdir parents f p =
     (case os_mkdir f p of
        Inr f' \<Rightarrow> Inr f'
      | Inl e \<Rightarrow>
          if e = FileNotFoundError then
            (if \<not> parents \<or> parts p = [] then Inl e
             else (case mkdir True f (parent p) of
                     Inl e' \<Rightarrow> Inl e'
                   | Inr f' \<Rightarrow> mkdir False f' p))
          else if is_dir f p then Inr f else Inl e)"
  by pat_completeness auto
termination
  by (relation "measures [\<lambda>(b, f, p). length (parts p), \<lambda>(b, f, p). if b then 1 else 0]")
     (auto simp: parent_def)

declare mkdir.simps [simp del]

subsection \<open>\<^verbatim>\<open>str.replace\<close> and \<^verbatim>\<open>str.strip\<close>\<close>

text \<open>
  \<^verbatim>\<open>s.replace(old, new)\<close>: every occurrence, left to right, not overlapping. With an
  empty \<open>old\<close> Python puts \<open>new\<close> before every character and at the end.
\<close>

fun replace_from :: "string \<Rightarrow> string \<Rightarrow> string \<Rightarrow> string" where
  "replace_from old new [] = []"
| "replace_from old new (c # cs) =
     (if take (length old) (c # cs) = old
      then new @ replace_from old new (drop (length old - 1) cs)
      else c # replace_from old new cs)"

definition replace :: "string \<Rightarrow> string \<Rightarrow> string \<Rightarrow> string" where
  "replace old new s =
     (if old = [] then new @ concat (map (\<lambda>c. c # new) s) else replace_from old new s)"

text \<open>
  \<^verbatim>\<open>str.isspace\<close> on one character. A \<open>char\<close> stands for the code point of the
  same number, so the strings of the model are the Python strings with code points below
  256; the white space among those is the five ASCII controls from tab to carriage
  return, the four separators from 0x1C to 0x1F, the blank, NEL (0x85) and the
  no-break space (0xA0).
\<close>

definition isspace :: "char \<Rightarrow> bool" where
  "isspace c =
     (c \<in> set [CHR 0x09, CHR 0x0A, CHR 0x0B, CHR 0x0C, CHR 0x0D,
                CHR 0x1C, CHR 0x1D, CHR 0x1E, CHR 0x1F, CHR 0x20, CHR 0x85, CHR 0xA0])"

text \<open>\<^verbatim>\<open>s.strip()\<close>: the white space at both ends goes.\<close>

definition strip :: "string \<Rightarrow> string" where
  "strip s = rev (dropWhile isspace (rev (dropWhile isspace s)))"

subsection \<open>The outside\<close>

text \<open>
  What a child process does when it is left alone: how long it runs (\<open>None\<close>: it never
  ends), what it returns, and the file system it leaves behind when it ends or is
  killed. \<open>NotStarted\<close> is a process that could not be spawned.
\<close>

record behaviour =
  runtime :: "nat option"
  returncode :: int
  stdout :: string
  stderr :: string
  fs_after :: filesystem

datatype launch = NotStarted exn | Started behaviour

record completed =
  rc :: int
  out :: string
  err :: string

text \<open>
  The oracles. Each sees the events so far, so that a server or a remote may answer
  differently from one request or pass to the next. \<open>environ\<close> is the environment
  after \<^verbatim>\<open>load_dotenv\<close>.
\<close>

record env =
  http :: "event list \<Rightarrow> api_request \<Rightarrow> exn + response"
  git :: "event list \<Rightarrow> string list \<Rightarrow> filesystem \<Rightarrow> launch"
  environ :: "string \<Rightarrow> string option"

record world =
  fs :: filesystem
  trace :: "event list"

definition emit :: "event list \<Rightarrow> world \<Rightarrow> world" where
  "emit evs w = w\<lparr>trace := trace w @ evs\<rparr>"

definition exceeds :: "nat \<Rightarrow> behaviour \<Rightarrow> bool" where
  "exceeds t b = (case runtime b of None \<Rightarrow> True | Some d \<Rightarrow> t < d)"

text \<open>
  \<^verbatim>\<open>subprocess.run(argv, capture_output=True, text=True, timeout=t)\<close>: a child that
  is still running after \<open>t\<close> seconds is killed and \<^verbatim>\<open>TimeoutExpired\<close> is raised.
\<close>

definition subprocess_run :: "env \<Rightarrow> string list \<Rightarrow> nat \<Rightarrow> world \<Rightarrow> (exn + completed) \<times> world" where
  "subprocess_run E argv t w =
     (case git E (trace w) argv (fs w) of
        NotStarted e \<Rightarrow> (Inl e, emit [Run argv t] w)
      | Started b \<Rightarrow>
          (if exceeds t b then Inl TimeoutExpired
           else Inr \<lparr>rc = returncode b, out = stdout b, err = stderr b\<rparr>,
           \<lparr>fs = fs_after b, trace = trace w @ [Run argv t]\<rparr>))"

subsection \<open>\<^verbatim>\<open>get_github_repos\<close>\<close>

text \<open>
  The \<^verbatim>\<open>while True\<close> loop of lines 27-56. It ends on an error or on an empty page
  only, so a server that never sends an empty page keeps it running: the value is
  \<open>None\<close> then.
\<close>

definition listing_request :: "string \<Rightarrow> nat \<Rightarrow> api_request" where
  "listing_request token pg =
     \<lparr>page = pg, per_page = 100,
      affiliation = ''owner,collaborator,organization_member'',
      authorization = ''token '' @ token\<rparr>"

partial_function (option) get_github_repos_loop ::
  "env \<Rightarrow> string \<Rightarrow> nat \<Rightarrow> repo_data list \<Rightarrow> world \<Rightarrow> ((exn + repo_data list) \<times> world) option"
where
  "get_github_repos_loop E token pg repos w =
     (case http E (trace w) (listing_request token pg) of
        Inl e \<Rightarrow> Some (Inl e, emit [HttpGet (listing_request token pg)] w)
      | Inr r \<Rightarrow>
          if status_code r \<noteq> 200
          then Some (Inl (GitHubAPIError (status_code r) (body r)),
                     emit [HttpGet (listing_request token pg)] w)
          else (case json r of
                  None \<Rightarrow> Some (Inl JSONDecodeError, emit [HttpGet (listing_request token pg)] w)
                | Some page_repos \<Rightarrow>
                    if page_repos = [] then Some (Inr repos, emit [HttpGet (listing_request token pg)] w)
                    else get_github_repos_loop E token (pg + 1) (repos @ page_repos)
                           (emit [HttpGet (listing_request token pg),
                                  Write (FoundSoFar (length (repos @ page_repos))),
                                  Sleep 500] w)))"

declare get_github_repos_loop.simps [code]

text \<open>
  The same loop, watched for \<open>n\<close> iterations: the result when it has ended by then,
  \<open>None\<close> when it is still running, and in both cases the world it has reached.
\<close>

fun get_github_repos_steps ::
  "nat \<Rightarrow> env \<Rightarrow> string \<Rightarrow> nat \<Rightarrow> repo_data list \<Rightarrow> world \<Rightarrow>
   (exn + repo_data list) option \<times> world"
where
  "get_github_repos_steps 0 E token pg repos w = (None, w)"
| "get_github_repos_steps (Suc n) E token pg repos w =
     (case http E (trace w) (listing_request token pg) of
        Inl e \<Rightarrow> (Some (Inl e), emit [HttpGet (listing_request token pg)] w)
      | Inr r \<Rightarrow>
          if status_code r \<noteq> 200
          then (Some (Inl (GitHubAPIError (status_code r) (body r))),
                emit [HttpGet (listing_request token pg)] w)
          else (case json r of
                  None \<Rightarrow> (Some (Inl JSONDecodeError), emit [HttpGet (listing_request token pg)] w)
                | Some page_repos \<Rightarrow>
                    if page_repos = [] then (Some (Inr repos), emit [HttpGet (listing_request token pg)] w)
                    else get_github_repos_steps n E token (pg + 1) (repos @ page_repos)
                           (emit [HttpGet (listing_request token pg),
                                  Write (FoundSoFar (length (repos @ page_repos))),
                                  Sleep 500] w)))"

definition get_github_repos ::
  "env \<Rightarrow> string \<Rightarrow> world \<Rightarrow> ((exn + repo_data list) \<times> world) option" where
  "get_github_repos E token w =
     get_github_repos_loop E token 1 [] (emit [Write FetchingRepositoryList] w)"

subsection \<open>\<^verbatim>\<open>clone_or_update_repo\<close>\<close>

text \<open>
  The two handlers of lines 135-144: a timeout has a message of its own, every other
  exception is reported with its text; both make the action fail.
\<close>

definition handle_exception :: "string \<Rightarrow> exn \<Rightarrow> world \<Rightarrow> bool \<times> world" where
  "handle_exception repo_name e w =
     (if e = TimeoutExpired then (False, emit [Write (TimeoutFor repo_name)] w)
      else (False, emit [Write (ErrorWith repo_name e)] w))"

definition clone_or_update_repo ::
  "env \<Rightarrow> repo_data \<Rightarrow> path \<Rightarrow> string \<Rightarrow> world \<Rightarrow> bool \<times> world" where
  "clone_or_update_repo E repo base_dir token w =
     (let repo_name = full_name repo;
          authenticated_url = replace ''https://'' (''https://'' @ token @ ''@'') (clone_url repo);
          repo_path = joinpath base_dir repo_name
      in if exists_path (fs w) repo_path then
           (case subprocess_run E [''git'', ''-C'', str_path repo_path, ''pull''] 300 w of
              (Inl e, w1) \<Rightarrow> handle_exception repo_name e w1
            | (Inr result, w1) \<Rightarrow>
                if rc result \<noteq> 0
                then (False, emit [Write (FailedToUpdate repo_name (strip (err result)))] w1)
                else (True, w1))
         else
           (case mkdir True (fs w) (parent repo_path) of
              Inl e \<Rightarrow> handle_exception repo_name e (emit [Mkdir (parent repo_path) True] w)
            | Inr f1 \<Rightarrow>
                (case subprocess_run E [''git'', ''clone'', authenticated_url, str_path repo_path] 300
                        \<lparr>fs = f1, trace = trace w @ [Mkdir (parent repo_path) True]\<rparr> of
                   (Inl e, w1) \<Rightarrow> handle_exception repo_name e w1
                 | (Inr result, w1) \<Rightarrow>
                     if rc result \<noteq> 0
                     then (False, emit [Write (FailedToClone repo_name (strip (err result)))] w1)
                     else (True, w1))))"

subsection \<open>\<^verbatim>\<open>main\<close> and the driver\<close>

text \<open>The loop of lines 206-217, with its two counters.\<close>

fun process_repos ::
  "env \<Rightarrow> repo_data list \<Rightarrow> path \<Rightarrow> string \<Rightarrow> nat \<Rightarrow> nat \<Rightarrow> world \<Rightarrow> nat \<times> nat \<times> world" where
  "process_repos E [] base_dir token success_count fail_count w = (success_count, fail_count, w)"
| "process_repos E (repo # repos) base_dir token success_count fail_count w =
     (case clone_or_update_repo E repo base_dir token w of
        (ok, w') \<Rightarrow>
          if ok then process_repos E repos base_dir token (success_count + 1) fail_count w'
          else process_repos E repos base_dir token success_count (fail_count + 1) w')"

text \<open>
  One pass. \<open>Inr code\<close> is the value \<^verbatim>\<open>main\<close> returns; \<open>Inl e\<close> is an exception that
  leaves \<^verbatim>\<open>main\<close>: the \<^verbatim>\<open>mkdir\<close> of line 180 stands before the \<^verbatim>\<open>try\<close>.
  \<open>None\<close> is an enumeration that never ends.
\<close>

definition main :: "env \<Rightarrow> world \<Rightarrow> ((exn + int) \<times> world) option" where
  "main E w =
     (case environ E ''GITHUB_TOKEN'' of
        None \<Rightarrow> Some (Inr 1, emit [Write TokenNotFound] w)
      | Some token \<Rightarrow>
          if token = [] then Some (Inr 1, emit [Write TokenNotFound] w)
          else
            (let base_dir = parse_path (case environ E ''REPOS_DIR'' of None \<Rightarrow> ''repos'' | Some d \<Rightarrow> d)
             in case mkdir False (fs w) base_dir of
                  Inl e \<Rightarrow> Some (Inl e, emit [Mkdir base_dir False] w)
                | Inr f1 \<Rightarrow>
                    (case get_github_repos E token
                            \<lparr>fs = f1, trace = trace w @ [Mkdir base_dir False, Write (BackingUpTo base_dir)]\<rparr> of
                       None \<Rightarrow> None
                     | Some (Inl e, w2) \<Rightarrow> Some (Inr 1, emit [Write (FatalError e)] w2)
                     | Some (Inr repos, w2) \<Rightarrow>
                         (case process_repos E repos base_dir token 0 0
                                 (emit [Write (FoundTotal (length repos))] w2) of
                            (success_count, fail_count, w3) \<Rightarrow>
                              Some (Inr (if fail_count = 0 then 0 else 1),
                                    emit [Write (Summary success_count fail_count)] w3)))))"

text \<open>
  Lines 237-242: \<^verbatim>\<open>while True: main(); print(...); time.sleep(24 * 60 * 60)\<close>. The
  loop has no exit, so the model counts iterations: \<open>driver n\<close> is the process after
  \<open>n\<close> rounds, still \<open>Running\<close>, or \<open>Crashed\<close> by an exception that left
  \<^verbatim>\<open>main\<close>. The value \<^verbatim>\<open>main\<close> returns is dropped, as line 239 drops it.
\<close>

datatype process_state = Running world | Crashed exn world

fun driver :: "nat \<Rightarrow> env \<Rightarrow> world \<Rightarrow> process_state option" where
  "driver 0 E w = Some (Running w)"
| "driver (Suc n) E w =
     (case main E w of
        None \<Rightarrow> None
      | Some (Inl e, w') \<Rightarrow> Some (Crashed e w')
      | Some (Inr code, w') \<Rightarrow>
          driver n E (emit [Write SleepingFor24Hours, Sleep (24 * 60 * 60 * 1000)] w'))"

text \<open>
  The exit status of the process. While it runs it has none, and nothing in the script
  ends it: there is no \<^verbatim>\<open>sys.exit\<close>. An exception that leaves \<^verbatim>\<open>main\<close> ends
  the interpreter with status 1.
\<close>

fun exit_code :: "process_state \<Rightarrow> int option" where
  "exit_code (Running w) = None"
| "exit_code (Crashed e w) = Some 1"

subsection \<open>Reading a trace\<close>

text \<open>The child processes of a trace, the pages it asked for, and its failure reports.\<close>

fun runs :: "event list \<Rightarrow> (string list \<times> nat) list" where
  "runs [] = []"
| "runs (Run argv t # evs) = (argv, t) # runs evs"
| "runs (ev # evs) = runs evs"

fun requested_pages :: "event list \<Rightarrow> nat list" where
  "requested_pages [] = []"
| "requested_pages (HttpGet rq # evs) = page rq # requested_pages evs"
| "requested_pages (ev # evs) = requested_pages evs"

fun is_failure :: "event \<Rightarrow> bool" where
  "is_failure (Write (FailedToUpdate n e)) = True"
| "is_failure (Write (FailedToClone n e)) = True"
| "is_failure (Write (TimeoutFor n)) = True"
| "is_failure (Write (ErrorWith n e)) = True"
| "is_failure ev = False"

fun is_fatal :: "event \<Rightarrow> bool" where
  "is_fatal (Write (FatalError e)) = True"
| "is_fatal (Write TokenNotFound) = True"
| "is_fatal ev = False"


text \<open>The events of \<open>w'\<close> that \<open>w\<close> did not have yet.\<close>

definition new_events :: "world \<Rightarrow> world \<Rightarrow> event list" where
  "new_events w w' = drop (length (trace w)) (trace w')"

text \<open>
  The shape of an enumeration: a request, then for every page that was not empty a
  progress line, the half second of sleep and the next request.
\<close>

fun listing_trace :: "event list \<Rightarrow> bool" where
  "listing_trace (HttpGet rq # Write (FoundSoFar n) # Sleep d # evs) = (d = 500 \<and> listing_trace evs)"
| "listing_trace [HttpGet rq] = True"
| "listing_trace evs = False"

text \<open>
  The shape of an enumeration that is still running: requests, each followed by a
  progress line and exactly the half second of sleep, and possibly a last request.
\<close>

fun listing_prefix :: "event list \<Rightarrow> bool" where
  "listing_prefix [] = True"
| "listing_prefix (HttpGet rq # Write (FoundSoFar n) # Sleep d # evs) = (d = 500 \<and> listing_prefix evs)"
| "listing_prefix [HttpGet rq] = True"
| "listing_prefix evs = False"


subsection \<open>Concrete worlds\<close>

text \<open>
  A working directory that holds an empty \<^verbatim>\<open>repos\<close>, one repository of the account,
  and a few ways the outside can behave.
\<close>



definition demo_cwd :: path where
  "demo_cwd = \<lparr>root = [], parts = []\<rparr>"

definition demo_base :: path where
  "demo_base = \<lparr>root = [], parts = [''repos'']\<rparr>"

definition demo_target :: path where
  "demo_target = \<lparr>root = [], parts = [''repos'', ''alice'', ''foo'']\<rparr>"

definition second_target :: path where
  "second_target = \<lparr>root = [], parts = [''repos'', ''bob'', ''bar'']\<rparr>"

definition demo_fs :: filesystem where
  "demo_fs = [demo_cwd \<mapsto> PlainDirectory, demo_base \<mapsto> PlainDirectory]"

definition demo_repo :: repo_data where
  "demo_repo = \<lparr>full_name = ''alice/foo'', clone_url = ''https://github.com/alice/foo.git''\<rparr>"

definition second_repo :: repo_data where
  "second_repo = \<lparr>full_name = ''bob/bar'', clone_url = ''https://github.com/bob/bar.git''\<rparr>"

text \<open>A git that exits with 128 and the given text on stderr, changing nothing.\<close>

definition git_fatal :: "string \<Rightarrow> event list \<Rightarrow> string list \<Rightarrow> filesystem \<Rightarrow> launch" where
  "git_fatal msg h argv f =
     Started \<lparr>runtime = Some 1, returncode = 128, stdout = [], stderr = msg, fs_after = f\<rparr>"

text \<open>A git that hangs on \<^verbatim>\<open>alice/foo\<close> and succeeds on everything else.\<close>

definition git_hangs_on_foo :: "event list \<Rightarrow> string list \<Rightarrow> filesystem \<Rightarrow> launch" where
  "git_hangs_on_foo h argv f =
     Started \<lparr>runtime = (if ''repos/alice/foo'' \<in> set argv then None else Some 2),
              returncode = 0, stdout = [], stderr = [], fs_after = f\<rparr>"

text \<open>A server that holds the given pages and answers every later page with an empty one.\<close>

definition http_pages :: "repo_data list list \<Rightarrow> event list \<Rightarrow> api_request \<Rightarrow> exn + response" where
  "http_pages pages h rq =
     Inr \<lparr>status_code = 200, body = [],
          json = Some (case drop (page rq - 1) pages of [] \<Rightarrow> [] | p # ps \<Rightarrow> p)\<rparr>"

text \<open>A server that answers every request with 429.\<close>

definition http_rate_limited :: "event list \<Rightarrow> api_request \<Rightarrow> exn + response" where
  "http_rate_limited h rq =
     Inr \<lparr>status_code = 429, body = ''API rate limit exceeded'', json = None\<rparr>"

definition demo_environ :: "string \<Rightarrow> string option" where
  "demo_environ = [''GITHUB_TOKEN'' \<mapsto> ''T'']"

definition pages_237 :: "repo_data list list" where
  "pages_237 = [replicate 100 demo_repo, replicate 100 demo_repo, replicate 37 demo_repo]"



text \<open>Two things git says on stderr, each with the line end git prints.\<close>

definition diverged_stderr :: string where
  "diverged_stderr = ''fatal: Not possible to fast-forward, aborting.'' @ [CHR 0x0A]"

definition unreachable_stderr :: string where
  "unreachable_stderr = ''fatal: unable to access the remote'' @ [CHR 0x0A]"

definition demo_env :: "(event list \<Rightarrow> string list \<Rightarrow> filesystem \<Rightarrow> launch) \<Rightarrow> env" where
  "demo_env g = \<lparr>http = http_pages [[demo_repo, second_repo]], git = g, environ = demo_environ\<rparr>"

text \<open>The pages an enumeration asks for, in order.\<close>

definition pages_asked :: "env \<Rightarrow> string \<Rightarrow> world \<Rightarrow> nat list option" where
  "pages_asked E token w =
     (case get_github_repos E token w of
        None \<Rightarrow> None
      | Some (res, w') \<Rightarrow> Some (requested_pages (new_events w w')))"

definition paging_env :: "repo_data list list \<Rightarrow> env" where
  "paging_env pages = \<lparr>http = http_pages pages, git = git_fatal ''fatal'', environ = demo_environ\<rparr>"

text \<open>A server on which every page holds one repository: the enumeration never ends.\<close>

definition endless_env :: env where
  "endless_env =
     \<lparr>http = (\<lambda>h rq. Inr \<lparr>status_code = 200, body = [], json = Some [demo_repo]\<rparr>),
      git = git_fatal ''fatal'', environ = demo_environ\<rparr>"

definition throttled_env :: env where
  "throttled_env = \<lparr>http = http_rate_limited, git = git_fatal ''fatal'', environ = demo_environ\<rparr>"

section \<open>Properties\<close>

subsection \<open>Auxiliary facts\<close>

lemma runs_append: "runs (xs @ ys) = runs xs @ runs ys"
  by (induction xs rule: runs.induct) auto

lemma replace_https:
  "replace ''https://'' new (''https://'' @ rest) = new @ replace ''https://'' new rest"
  by (simp add: replace_def)

text \<open>Stripping leaves a text alone that neither begins nor ends with white space.\<close>

lemma strip_clean:
  assumes "s \<noteq> []" and "\<not> isspace (hd s)" and "\<not> isspace (last s)"
  shows "strip s = s"
proof -
  from assms(1,2) have "dropWhile isspace s = s"
    by (cases s) auto
  moreover from assms(1,3) have "dropWhile isspace (rev s) = rev s"
    by (cases "rev s") (auto simp: last_rev [symmetric] hd_rev)
  ultimately show ?thesis by (simp add: strip_def)
qed

lemma strip_texts:
  "strip ''fatal'' = ''fatal''"
  "strip ''fatal: unable to access the remote'' = ''fatal: unable to access the remote''"
  "strip diverged_stderr = ''fatal: Not possible to fast-forward, aborting.''"
  "strip unreachable_stderr = ''fatal: unable to access the remote''"
  by (simp_all add: strip_def isspace_def diverged_stderr_def unreachable_stderr_def)

text \<open>The child processes of one action: a pull, a clone, or none when the parent could not be made.\<close>

lemma clone_or_update_repo_runs:
  "runs (trace (snd (clone_or_update_repo E repo base token w))) =
         runs (trace w) @
         (if exists_path (fs w) (joinpath base (full_name repo))
          then [([''git'', ''-C'', str_path (joinpath base (full_name repo)), ''pull''], 300)]
          else if isl (mkdir True (fs w) (parent (joinpath base (full_name repo)))) then []
          else [([''git'', ''clone'',
                  replace ''https://'' (''https://'' @ token @ ''@'') (clone_url repo),
                  str_path (joinpath base (full_name repo))], 300)])"
  by (auto simp: clone_or_update_repo_def subprocess_run_def handle_exception_def Let_def emit_def
        runs_append split: sum.splits launch.splits prod.splits)

lemma demo_target_eq: "joinpath demo_base (full_name demo_repo) = demo_target"
  by (simp add: joinpath_def parse_path_def splitroot_def demo_base_def demo_repo_def demo_target_def)

lemma demo_target_new: "\<not> exists_path demo_fs demo_target"
  by (simp add: exists_path_def demo_fs_def demo_target_def demo_cwd_def demo_base_def)

lemma demo_target_str: "str_path demo_target = ''repos/alice/foo''"
  by (simp add: str_path_def demo_target_def)

lemma demo_mkdir:
  "mkdir True demo_fs (parent demo_target) = Inr (demo_fs(parent demo_target \<mapsto> PlainDirectory))"
  by (simp add: mkdir.simps os_mkdir_def demo_fs_def parent_def demo_target_def demo_cwd_def
        demo_base_def)



lemmas demo_facts = demo_target_eq demo_target_new demo_target_str demo_mkdir

lemma trace_emit [simp]: "trace (emit evs w) = trace w @ evs"
  by (simp add: emit_def)

lemma fs_emit [simp]: "fs (emit evs w) = fs w"
  by (simp add: emit_def)

lemma new_events_append [simp]: "trace w' = trace w @ evs \<Longrightarrow> new_events w w' = evs"
  by (simp add: new_events_def)

lemma mkdir_single_is_dir: "mkdir False f p = Inr f' \<Longrightarrow> is_dir f' p"
  by (subst (asm) mkdir.simps)
     (auto simp: os_mkdir_def is_dir_def split: sum.splits if_splits option.splits node.splits)

lemma mkdir_is_dir: "mkdir par f p = Inr f' \<Longrightarrow> is_dir f' p"
proof (cases par)
  case False
  then show "mkdir par f p = Inr f' \<Longrightarrow> is_dir f' p"
    by (simp add: mkdir_single_is_dir)
next
  case True
  assume m: "mkdir par f p = Inr f'"
  show "is_dir f' p"
  proof (cases "os_mkdir f p")
    case (Inr g)
    with m have "f' = g" by (subst (asm) mkdir.simps) simp
    with Inr show ?thesis
      by (auto simp: os_mkdir_def is_dir_def split: if_splits option.splits node.splits)
  next
    case (Inl e)
    show ?thesis
    proof (cases "e = FileNotFoundError")
      case False
      with m Inl show ?thesis
        by (subst (asm) mkdir.simps) (auto split: if_splits)
    next
      case e: True
      with m Inl True obtain g where "mkdir False g p = Inr f'"
        by (subst (asm) mkdir.simps) (auto split: if_splits sum.splits)
      then show ?thesis by (rule mkdir_single_is_dir)
    qed
  qed
qed

text \<open>What one action appends to the trace, and what it returns.\<close>

lemma clone_or_update_repo_events:
  "\<exists>report. trace (snd (clone_or_update_repo E repo base token w)) =
       trace w @
       (if exists_path (fs w) (joinpath base (full_name repo))
        then [Run [''git'', ''-C'', str_path (joinpath base (full_name repo)), ''pull''] 300]
        else if isl (mkdir True (fs w) (parent (joinpath base (full_name repo))))
        then [Mkdir (parent (joinpath base (full_name repo))) True]
        else [Mkdir (parent (joinpath base (full_name repo))) True,
              Run [''git'', ''clone'',
                   replace ''https://'' (''https://'' @ token @ ''@'') (clone_url repo),
                   str_path (joinpath base (full_name repo))] 300]) @ report \<and>
     (if fst (clone_or_update_repo E repo base token w) then report = []
      else \<exists>m. report = [Write m] \<and> is_failure (Write m))"
  by (auto simp: clone_or_update_repo_def subprocess_run_def handle_exception_def Let_def emit_def
        split: sum.splits launch.splits prod.splits)

lemma new_events_runs:
  "runs (new_events w (snd (clone_or_update_repo E repo base token w))) =
     (if exists_path (fs w) (joinpath base (full_name repo))
      then [([''git'', ''-C'', str_path (joinpath base (full_name repo)), ''pull''], 300)]
      else if isl (mkdir True (fs w) (parent (joinpath base (full_name repo)))) then []
      else [([''git'', ''clone'',
              replace ''https://'' (''https://'' @ token @ ''@'') (clone_url repo),
              str_path (joinpath base (full_name repo))], 300)])"
proof -
  obtain report where
    t: "trace (snd (clone_or_update_repo E repo base token w)) =
       trace w @
       (if exists_path (fs w) (joinpath base (full_name repo))
        then [Run [''git'', ''-C'', str_path (joinpath base (full_name repo)), ''pull''] 300]
        else if isl (mkdir True (fs w) (parent (joinpath base (full_name repo))))
        then [Mkdir (parent (joinpath base (full_name repo))) True]
        else [Mkdir (parent (joinpath base (full_name repo))) True,
              Run [''git'', ''clone'',
                   replace ''https://'' (''https://'' @ token @ ''@'') (clone_url repo),
                   str_path (joinpath base (full_name repo))] 300]) @ report"
    and r: "if fst (clone_or_update_repo E repo base token w) then report = []
      else \<exists>m. report = [Write m] \<and> is_failure (Write m)"
    using clone_or_update_repo_events [of E repo base token w] by blast
  from r have "runs report = []" by (auto split: if_splits)
  with t show ?thesis
    by (simp add: new_events_def runs_append)
qed

lemma process_repos_total:
  "process_repos E repos base token s f w = (s', f', w') \<Longrightarrow> s' + f' = s + f + length repos"
  by (induction repos arbitrary: s f w) (auto split: prod.splits if_splits)

text \<open>An enumeration that ends appended a trace of the listing shape and left the file system alone.\<close>

lemma loop_listing:
  assumes "get_github_repos_loop E token pg repos w = Some y"
  shows "\<exists>new. trace (snd y) = trace w @ new \<and> listing_trace new \<and> fs (snd y) = fs w"
proof (rule get_github_repos_loop.raw_induct
    [where P = "\<lambda>E token pg repos w y.
        \<exists>new. trace (snd y) = trace w @ new \<and> listing_trace new \<and> fs (snd y) = fs w", OF _ assms],
    goal_cases)
  case (1 loop E token pg repos w y)
  note IH = 1(1) and step = 1(2)
  show ?case
  proof (cases "http E (trace w) (listing_request token pg)")
    case (Inl e)
    with step show ?thesis by auto
  next
    case (Inr r)
    show ?thesis
    proof (cases "status_code r \<noteq> 200 \<or> json r = None \<or> json r = Some []")
      case True
      with Inr step show ?thesis by (auto split: if_splits)
    next
      case False
      then obtain page_repos where j: "json r = Some page_repos" "page_repos \<noteq> []" "status_code r = 200"
        by auto
      with Inr step have
        "loop E token (pg + 1) (repos @ page_repos)
           (emit [HttpGet (listing_request token pg),
                  Write (FoundSoFar (length (repos @ page_repos))), Sleep 500] w) = Some y"
        by simp
      from IH [OF this] show ?thesis by auto
    qed
  qed
qed

lemma page_listing_request [simp]: "page (listing_request token pg) = pg"
  by (simp add: listing_request_def)

lemma listing_trace_runs: "listing_trace evs \<Longrightarrow> runs evs = []"
  by (induction evs rule: listing_trace.induct) auto

lemma listing_trace_quiet:
  "listing_trace evs \<Longrightarrow> filter is_failure evs = [] \<and> filter is_fatal evs = []"
  by (induction evs rule: listing_trace.induct) auto

lemma get_github_repos_listing:
  assumes "get_github_repos E token w = Some (res, w')"
  shows "\<exists>new. trace w' = trace w @ Write FetchingRepositoryList # new \<and> listing_trace new \<and> fs w' = fs w"
  using loop_listing [OF assms [unfolded get_github_repos_def]] by auto

lemma requested_pages_append:
  "requested_pages (xs @ ys) = requested_pages xs @ requested_pages ys"
  by (induction xs rule: requested_pages.induct) auto

lemma loop_pages:
  assumes "\<And>h k. k < length pages \<Longrightarrow>
             \<exists>r. http E h (listing_request token (pg + k)) = Inr r \<and> status_code r = 200 \<and>
                 json r = Some (pages ! k)"
    and "[] \<notin> set pages"
    and "\<And>h. \<exists>r. http E h (listing_request token (pg + length pages)) = Inr r \<and>
                 status_code r = 200 \<and> json r = Some []"
  shows "\<exists>w'. get_github_repos_loop E token pg repos w = Some (Inr (repos @ concat pages), w') \<and>
              requested_pages (new_events w w') = [pg ..< pg + length pages + 1]"
  using assms
proof (induction pages arbitrary: pg repos w)
  case Nil
  from Nil(3) [of "trace w"] obtain r where
    "http E (trace w) (listing_request token pg) = Inr r" "status_code r = 200" "json r = Some []"
    by auto
  then show ?case
    by (subst get_github_repos_loop.simps) (simp add: new_events_def)
next
  case (Cons p ps)
  from Cons.prems(1) [of 0 "trace w"] obtain r where
    r: "http E (trace w) (listing_request token pg) = Inr r" "status_code r = 200" "json r = Some p"
    by auto
  from Cons.prems(2) have p: "p \<noteq> []" and ps: "[] \<notin> set ps" by auto
  let ?w1 = "emit [HttpGet (listing_request token pg),
                   Write (FoundSoFar (length (repos @ p))), Sleep 500] w"
  have a: "\<And>h k. k < length ps \<Longrightarrow>
             \<exists>r. http E h (listing_request token (Suc pg + k)) = Inr r \<and> status_code r = 200 \<and>
                 json r = Some (ps ! k)"
    using Cons.prems(1) [of "Suc _"] by auto
  have b: "\<And>h. \<exists>r. http E h (listing_request token (Suc pg + length ps)) = Inr r \<and>
                 status_code r = 200 \<and> json r = Some []"
    using Cons.prems(3) by auto
  from Cons.IH [OF a ps b, of "repos @ p" ?w1] obtain w' where
    w': "get_github_repos_loop E token (Suc pg) (repos @ p) ?w1 = Some (Inr ((repos @ p) @ concat ps), w')"
      "requested_pages (new_events ?w1 w') = [Suc pg ..< Suc pg + length ps + 1]"
    by blast
  from loop_listing [OF w'(1)] obtain new where
    n: "trace w' = trace ?w1 @ new" by auto
  have "get_github_repos_loop E token pg repos w = Some (Inr (repos @ concat (p # ps)), w')"
    using r p w'(1) by (subst get_github_repos_loop.simps) simp
  moreover have "requested_pages (new_events w w') = [pg ..< pg + length (p # ps) + 1]"
    using w'(2) n by (simp add: new_events_def requested_pages_append listing_request_def upt_rec)
  ultimately show ?case by blast
qed

lemma http_pages_serves:
  "k < length pages \<Longrightarrow>
   http_pages pages h (listing_request token (Suc k)) =
     Inr \<lparr>status_code = 200, body = [], json = Some (pages ! k)\<rparr>"
  by (simp add: http_pages_def listing_request_def Cons_nth_drop_Suc [symmetric])

lemma http_pages_end:
  "http_pages pages h (listing_request token (Suc (length pages))) =
     Inr \<lparr>status_code = 200, body = [], json = Some []\<rparr>"
  by (simp add: http_pages_def listing_request_def)

lemma pages_237_facts:
  "map length pages_237 = [100, 100, 37]" "[] \<notin> set pages_237" "length (concat pages_237) = 237"
  by (simp_all add: pages_237_def)

lemma two_repos_listing:
  "get_github_repos (paging_env [[demo_repo, second_repo]]) ''T'' \<lparr>fs = demo_fs, trace = []\<rparr> =
     Some (Inr [demo_repo, second_repo],
           \<lparr>fs = demo_fs,
            trace = [Write FetchingRepositoryList, HttpGet (listing_request ''T'' 1),
                     Write (FoundSoFar 2), Sleep 500, HttpGet (listing_request ''T'' 2)]\<rparr>)"
  by (simp add: get_github_repos_def get_github_repos_loop.simps paging_env_def http_pages_def
        emit_def)
     (simp add: listing_request_def)

lemma throttled_listing:
  "get_github_repos throttled_env ''T'' \<lparr>fs = demo_fs, trace = []\<rparr> =
     Some (Inl (GitHubAPIError 429 ''API rate limit exceeded''),
           \<lparr>fs = demo_fs,
            trace = [Write FetchingRepositoryList, HttpGet (listing_request ''T'' 1)]\<rparr>)"
  by (simp add: get_github_repos_def get_github_repos_loop.simps throttled_env_def
        http_rate_limited_def emit_def)

text \<open>Failure reports and failed actions correspond one to one.\<close>

lemma action_reports:
  "\<exists>new. trace (snd (clone_or_update_repo E repo base token w)) = trace w @ new \<and>
         length (filter is_failure new) = (if fst (clone_or_update_repo E repo base token w) then 0 else 1) \<and>
         filter is_fatal new = []"
proof -
  obtain report where
    t: "trace (snd (clone_or_update_repo E repo base token w)) =
       trace w @
       (if exists_path (fs w) (joinpath base (full_name repo))
        then [Run [''git'', ''-C'', str_path (joinpath base (full_name repo)), ''pull''] 300]
        else if isl (mkdir True (fs w) (parent (joinpath base (full_name repo))))
        then [Mkdir (parent (joinpath base (full_name repo))) True]
        else [Mkdir (parent (joinpath base (full_name repo))) True,
              Run [''git'', ''clone'',
                   replace ''https://'' (''https://'' @ token @ ''@'') (clone_url repo),
                   str_path (joinpath base (full_name repo))] 300]) @ report"
    and r: "if fst (clone_or_update_repo E repo base token w) then report = []
      else \<exists>m. report = [Write m] \<and> is_failure (Write m)"
    using clone_or_update_repo_events [of E repo base token w] by blast
  from r have "length (filter is_failure report) =
                 (if fst (clone_or_update_repo E repo base token w) then 0 else 1)"
    and "filter is_fatal report = []"
    by (auto split: if_splits elim: is_failure.elims)
  with t show ?thesis by (auto split: if_splits)
qed

lemma process_repos_reports:
  "process_repos E repos base token s f w = (s', f', w') \<Longrightarrow>
   \<exists>new. trace w' = trace w @ new \<and> f' = f + length (filter is_failure new) \<and>
         filter is_fatal new = []"
proof (induction repos arbitrary: s f w)
  case Nil
  then show ?case by simp
next
  case (Cons repo repos)
  obtain ok w1 where c: "clone_or_update_repo E repo base token w = (ok, w1)"
    by (cases "clone_or_update_repo E repo base token w")
  from action_reports [of E repo base token w] c obtain new1 where
    n1: "trace w1 = trace w @ new1"
      "length (filter is_failure new1) = (if ok then 0 else 1)" "filter is_fatal new1 = []"
    by auto
  from Cons.prems c have
    "process_repos E repos base token (if ok then s + 1 else s) (if ok then f else f + 1) w1 = (s', f', w')"
    by (simp split: if_splits)
  from Cons.IH [OF this] obtain new2 where
    n2: "trace w' = trace w1 @ new2"
      "f' = (if ok then f else f + 1) + length (filter is_failure new2)" "filter is_fatal new2 = []"
    by blast
  from n1 n2 have "trace w' = trace w @ (new1 @ new2) \<and>
      f' = f + length (filter is_failure (new1 @ new2)) \<and> filter is_fatal (new1 @ new2) = []"
    by (auto split: if_splits)
  then show ?case by blast
qed

text \<open>Three passes, computed.\<close>

lemma parse_repos: "parse_path ''repos'' = demo_base"
  by (simp add: parse_path_def splitroot_def demo_base_def)

lemma mkdir_base: "mkdir False demo_fs demo_base = Inr demo_fs"
  by (simp add: mkdir.simps os_mkdir_def is_dir_def demo_fs_def)

lemma demo_base_dir:
  "parse_path (case demo_environ ''REPOS_DIR'' of None \<Rightarrow> ''repos'' | Some d \<Rightarrow> d) = demo_base"
  by (simp add: demo_environ_def parse_repos)

lemma empty_pass:
  "main (paging_env []) \<lparr>fs = demo_fs, trace = []\<rparr> =
     Some (Inr 0, \<lparr>fs = demo_fs,
                   trace = [Mkdir demo_base False, Write (BackingUpTo demo_base),
                            Write FetchingRepositoryList, HttpGet (listing_request ''T'' 1),
                            Write (FoundTotal 0), Write (Summary 0 0)]\<rparr>)"
  by (simp add: main_def paging_env_def demo_environ_def parse_repos mkdir_base
        get_github_repos_def get_github_repos_loop.simps http_pages_def emit_def)

lemma throttled_pass:
  "main throttled_env \<lparr>fs = demo_fs, trace = t\<rparr> =
     Some (Inr 1, \<lparr>fs = demo_fs,
                   trace = t @ [Mkdir demo_base False, Write (BackingUpTo demo_base),
                            Write FetchingRepositoryList, HttpGet (listing_request ''T'' 1),
                            Write (FatalError (GitHubAPIError 429 ''API rate limit exceeded''))]\<rparr>)"
  by (simp add: main_def throttled_env_def demo_environ_def parse_repos mkdir_base
        get_github_repos_def get_github_repos_loop.simps http_rate_limited_def emit_def)

lemma demo_clone_url:
  "replace ''https://'' (''https://'' @ ''T'' @ ''@'') (clone_url demo_repo) =
     ''https://T@github.com/alice/foo.git''"
  by (simp add: demo_repo_def replace_def)

lemma failing_pass:
  "main (paging_env [[demo_repo]]) \<lparr>fs = demo_fs, trace = []\<rparr> =
     Some (Inr 1, \<lparr>fs = demo_fs(parent demo_target \<mapsto> PlainDirectory),
                   trace = [Mkdir demo_base False, Write (BackingUpTo demo_base),
                            Write FetchingRepositoryList, HttpGet (listing_request ''T'' 1),
                            Write (FoundSoFar 1), Sleep 500, HttpGet (listing_request ''T'' 2),
                            Write (FoundTotal 1),
                            Mkdir (parent demo_target) True,
                            Run [''git'', ''clone'', ''https://T@github.com/alice/foo.git'',
                                 ''repos/alice/foo''] 300,
                            Write (FailedToClone ''alice/foo'' ''fatal''),
                            Write (Summary 0 1)]\<rparr>)"
proof -
  have l: "get_github_repos (paging_env [[demo_repo]]) ''T''
             \<lparr>fs = demo_fs, trace = [Mkdir demo_base False, Write (BackingUpTo demo_base)]\<rparr> =
           Some (Inr [demo_repo],
                 \<lparr>fs = demo_fs,
                  trace = [Mkdir demo_base False, Write (BackingUpTo demo_base),
                           Write FetchingRepositoryList, HttpGet (listing_request ''T'' 1),
                           Write (FoundSoFar 1), Sleep 500, HttpGet (listing_request ''T'' 2)]\<rparr>)"
    by (simp add: get_github_repos_def get_github_repos_loop.simps paging_env_def http_pages_def
          emit_def)
       (simp add: listing_request_def)
  have c: "\<And>t. clone_or_update_repo (paging_env [[demo_repo]]) demo_repo demo_base ''T''
             \<lparr>fs = demo_fs, trace = t\<rparr> =
           (False, \<lparr>fs = demo_fs(parent demo_target \<mapsto> PlainDirectory),
                    trace = t @ [Mkdir (parent demo_target) True,
                            Run [''git'', ''clone'', ''https://T@github.com/alice/foo.git'',
                                 ''repos/alice/foo''] 300,
                            Write (FailedToClone ''alice/foo'' ''fatal'')]\<rparr>)"
    using demo_clone_url
    by (simp add: clone_or_update_repo_def subprocess_run_def Let_def emit_def demo_facts
          paging_env_def git_fatal_def exceeds_def strip_texts)
       (simp add: demo_repo_def)
  have e: "environ (paging_env [[demo_repo]]) = demo_environ"
    by (simp add: paging_env_def)
  have t: "demo_environ ''GITHUB_TOKEN'' = Some ''T''"
    by (simp add: demo_environ_def)
  show ?thesis
    by (simp add: main_def e t demo_base_dir mkdir_base l c emit_def)
qed








text \<open>The watched loop and the loop agree, and every watched trace has the listing shape.\<close>

lemma steps_loop:
  "get_github_repos_steps n E token pg repos w = (Some res, w') \<Longrightarrow>
   get_github_repos_loop E token pg repos w = Some (res, w')"
proof (induction n arbitrary: pg repos w)
  case 0
  then show ?case by simp
next
  case (Suc n)
  show ?case
  proof (cases "http E (trace w) (listing_request token pg)")
    case (Inl e)
    with Suc.prems show ?thesis
      by (subst get_github_repos_loop.simps) auto
  next
    case (Inr r)
    show ?thesis
    proof (cases "status_code r \<noteq> 200 \<or> json r = None \<or> json r = Some []")
      case True
      with Inr Suc.prems show ?thesis
        by (subst get_github_repos_loop.simps) (auto split: if_splits)
    next
      case False
      then obtain page_repos where j: "json r = Some page_repos" "page_repos \<noteq> []" "status_code r = 200"
        by auto
      with Inr Suc.prems have
        "get_github_repos_steps n E token (pg + 1) (repos @ page_repos)
           (emit [HttpGet (listing_request token pg),
                  Write (FoundSoFar (length (repos @ page_repos))), Sleep 500] w) = (Some res, w')"
        by simp
      from Suc.IH [OF this] Inr j show ?thesis
        by (subst get_github_repos_loop.simps) simp
    qed
  qed
qed

lemma loop_steps:
  assumes "get_github_repos_loop E token pg repos w = Some y"
  shows "\<exists>n. get_github_repos_steps n E token pg repos w = (Some (fst y), snd y)"
proof (rule get_github_repos_loop.raw_induct
    [where P = "\<lambda>E token pg repos w y.
        \<exists>n. get_github_repos_steps n E token pg repos w = (Some (fst y), snd y)", OF _ assms],
    goal_cases)
  case (1 loop E token pg repos w y)
  note IH = 1(1) and step = 1(2)
  show ?case
  proof (cases "http E (trace w) (listing_request token pg)")
    case (Inl e)
    with step have "get_github_repos_steps (Suc 0) E token pg repos w = (Some (fst y), snd y)"
      by auto
    then show ?thesis by blast
  next
    case (Inr r)
    show ?thesis
    proof (cases "status_code r \<noteq> 200 \<or> json r = None \<or> json r = Some []")
      case True
      with Inr step have "get_github_repos_steps (Suc 0) E token pg repos w = (Some (fst y), snd y)"
        by (auto split: if_splits)
      then show ?thesis by blast
    next
      case False
      then obtain page_repos where j: "json r = Some page_repos" "page_repos \<noteq> []" "status_code r = 200"
        by auto
      with Inr step have
        "loop E token (pg + 1) (repos @ page_repos)
           (emit [HttpGet (listing_request token pg),
                  Write (FoundSoFar (length (repos @ page_repos))), Sleep 500] w) = Some y"
        by simp
      from IH [OF this] obtain n where
        "get_github_repos_steps n E token (pg + 1) (repos @ page_repos)
           (emit [HttpGet (listing_request token pg),
                  Write (FoundSoFar (length (repos @ page_repos))), Sleep 500] w) = (Some (fst y), snd y)"
        by blast
      with Inr j have "get_github_repos_steps (Suc n) E token pg repos w = (Some (fst y), snd y)"
        by simp
      then show ?thesis by blast
    qed
  qed
qed

lemma steps_prefix:
  "\<exists>evs. trace (snd (get_github_repos_steps n E token pg repos w)) = trace w @ evs \<and>
         listing_prefix evs \<and> fs (snd (get_github_repos_steps n E token pg repos w)) = fs w"
proof (induction n arbitrary: pg repos w)
  case 0
  then show ?case by simp
next
  case (Suc n)
  show ?case
  proof (cases "http E (trace w) (listing_request token pg)")
    case (Inl e)
    then show ?thesis by simp
  next
    case (Inr r)
    show ?thesis
    proof (cases "status_code r \<noteq> 200 \<or> json r = None \<or> json r = Some []")
      case True
      with Inr show ?thesis by auto
    next
      case False
      then obtain page_repos where j: "json r = Some page_repos" "page_repos \<noteq> []" "status_code r = 200"
        by auto
      let ?w1 = "emit [HttpGet (listing_request token pg),
                  Write (FoundSoFar (length (repos @ page_repos))), Sleep 500] w"
      from Suc.IH [of "pg + 1" "repos @ page_repos" ?w1] obtain evs where
        e: "trace (snd (get_github_repos_steps n E token (pg + 1) (repos @ page_repos) ?w1)) =
              trace ?w1 @ evs" "listing_prefix evs"
           "fs (snd (get_github_repos_steps n E token (pg + 1) (repos @ page_repos) ?w1)) = fs ?w1"
        by blast
      have "listing_prefix ([HttpGet (listing_request token pg),
                  Write (FoundSoFar (length (repos @ page_repos))), Sleep 500] @ evs)"
        using e(2) by simp
      with e Inr j show ?thesis by auto
    qed
  qed
qed

lemma endless_steps:
  "get_github_repos_steps (Suc (Suc 0)) endless_env ''T'' 1 [] \<lparr>fs = demo_fs, trace = []\<rparr> =
     (None, \<lparr>fs = demo_fs,
             trace = [HttpGet (listing_request ''T'' 1), Write (FoundSoFar 1), Sleep 500,
                      HttpGet (listing_request ''T'' 2), Write (FoundSoFar 2), Sleep 500]\<rparr>)"
  by (simp add: endless_env_def emit_def) (simp add: listing_request_def)

text \<open>The loop runs the action of every repository, in order.\<close>

lemma process_repos_fold:
  "process_repos E repos base token s f w = (s', f', w') \<Longrightarrow>
   w' = foldl (\<lambda>v r. snd (clone_or_update_repo E r base token v)) w repos"
proof (induction repos arbitrary: s f w)
  case Nil
  then show ?case by simp
next
  case (Cons repo repos)
  obtain ok w1 where c: "clone_or_update_repo E repo base token w = (ok, w1)"
    by (cases "clone_or_update_repo E repo base token w")
  from Cons.prems c have
    "process_repos E repos base token (if ok then s + 1 else s) (if ok then f else f + 1) w1 = (s', f', w')"
    by (simp split: if_splits)
  from Cons.IH [OF this] c show ?case by simp
qed

lemma second_target_facts:
  "joinpath demo_base (full_name second_repo) = second_target"
  "\<not> exists_path (demo_fs(parent demo_target \<mapsto> PlainDirectory)) second_target"
  "str_path second_target = ''repos/bob/bar''"
  "mkdir True (demo_fs(parent demo_target \<mapsto> PlainDirectory)) (parent second_target) =
     Inr (demo_fs(parent demo_target \<mapsto> PlainDirectory, parent second_target \<mapsto> PlainDirectory))"
  "replace ''https://'' (''https://'' @ ''T'' @ ''@'') (clone_url second_repo) =
     ''https://T@github.com/bob/bar.git''"
  by (simp_all add: joinpath_def parse_path_def splitroot_def demo_base_def second_repo_def
        second_target_def exists_path_def demo_fs_def demo_target_def demo_cwd_def parent_def
        str_path_def mkdir.simps os_mkdir_def replace_def)

lemma timed_out_clone:
  "clone_or_update_repo (demo_env git_hangs_on_foo) demo_repo demo_base ''T''
      \<lparr>fs = demo_fs, trace = []\<rparr> =
     (False, \<lparr>fs = demo_fs(parent demo_target \<mapsto> PlainDirectory),
              trace = [Mkdir (parent demo_target) True,
                       Run [''git'', ''clone'', ''https://T@github.com/alice/foo.git'', ''repos/alice/foo''] 300,
                       Write (TimeoutFor ''alice/foo'')]\<rparr>)"
  using demo_clone_url
  by (simp add: clone_or_update_repo_def subprocess_run_def handle_exception_def Let_def emit_def
        demo_facts demo_env_def git_hangs_on_foo_def exceeds_def)
     (simp add: demo_repo_def)

lemma clone_after_timeout:
  "clone_or_update_repo (demo_env git_hangs_on_foo) second_repo demo_base ''T''
      \<lparr>fs = demo_fs(parent demo_target \<mapsto> PlainDirectory), trace = t\<rparr> =
     (True, \<lparr>fs = demo_fs(parent demo_target \<mapsto> PlainDirectory,
                          parent second_target \<mapsto> PlainDirectory),
             trace = t @ [Mkdir (parent second_target) True,
                      Run [''git'', ''clone'', ''https://T@github.com/bob/bar.git'', ''repos/bob/bar''] 300]\<rparr>)"
  using second_target_facts(5)
  by (simp add: clone_or_update_repo_def subprocess_run_def Let_def emit_def
        second_target_facts(1-4) demo_env_def git_hangs_on_foo_def exceeds_def)

text \<open>The value \<^verbatim>\<open>main\<close> returns, read off the reports of the pass.\<close>

lemma main_code:
  assumes "main E w = Some (Inr code, w')"
  shows "code = (if filter is_failure (new_events w w') = [] \<and> filter is_fatal (new_events w w') = []
                 then 0 else 1)"
proof (cases "environ E ''GITHUB_TOKEN'' = None \<or> environ E ''GITHUB_TOKEN'' = Some []")
  case True
  with assms show ?thesis
    by (auto simp: main_def new_events_def)
next
  case False
  then obtain token where tk: "environ E ''GITHUB_TOKEN'' = Some token" "token \<noteq> []"
    by auto
  define base where "base = parse_path (case environ E ''REPOS_DIR'' of None \<Rightarrow> ''repos'' | Some d \<Rightarrow> d)"
  from assms tk obtain f1 where mk: "mkdir False (fs w) base = Inr f1"
    by (cases "mkdir False (fs w) base") (auto simp: main_def base_def Let_def)
  define w1 where "w1 = \<lparr>fs = f1, trace = trace w @ [Mkdir base False, Write (BackingUpTo base)]\<rparr>"
  from assms tk mk obtain res w2 where g: "get_github_repos E token w1 = Some (res, w2)"
    by (cases "get_github_repos E token w1")
       (auto simp: main_def base_def [symmetric] Let_def w1_def [symmetric])
  from get_github_repos_listing [OF g] obtain lst where
    l: "trace w2 = trace w1 @ Write FetchingRepositoryList # lst" "listing_trace lst"
    by auto
  note q = listing_trace_quiet [OF l(2)]
  show ?thesis
  proof (cases res)
    case (Inl e)
    with assms tk mk g have "code = 1" "w' = emit [Write (FatalError e)] w2"
      by (auto simp: main_def base_def [symmetric] Let_def w1_def [symmetric])
    with l show ?thesis
      by (simp add: new_events_def w1_def)
  next
    case (Inr repos)
    obtain s f w3 where p: "process_repos E repos base token 0 0
        (emit [Write (FoundTotal (length repos))] w2) = (s, f, w3)"
      by (cases "process_repos E repos base token 0 0 (emit [Write (FoundTotal (length repos))] w2)")
    from process_repos_reports [OF p] obtain new where
      n: "trace w3 = trace w2 @ Write (FoundTotal (length repos)) # new"
        "f = length (filter is_failure new)" "filter is_fatal new = []"
      by auto
    from assms tk mk g Inr p have "code = (if f = 0 then 0 else 1)"
      "w' = emit [Write (Summary s f)] w3"
      by (auto simp: main_def base_def [symmetric] Let_def w1_def [symmetric])
    with l n q show ?thesis
      by (simp add: new_events_def w1_def)
  qed
qed





subsection \<open>The token and the argument vectors\<close>

text \<open>
  C9, as the code has it. The pull is \<^verbatim>\<open>git -C <path> pull\<close> and names no token. The
  clone is handed the clone URL with every \<^verbatim>\<open>https://\<close> replaced by
  \<^verbatim>\<open>https://<token>@\<close> (line 70): for a clone URL \<^verbatim>\<open>https://rest\<close> the third
  argument of \<^verbatim>\<open>git clone\<close> begins with \<^verbatim>\<open>https://<token>@\<close>.
\<close>

theorem token_in_clone_argv:
  assumes "clone_url repo = ''https://'' @ rest"
  shows "runs (trace (snd (clone_or_update_repo E repo base token w))) =
         runs (trace w) @
         (if exists_path (fs w) (joinpath base (full_name repo))
          then [([''git'', ''-C'', str_path (joinpath base (full_name repo)), ''pull''], 300)]
          else if isl (mkdir True (fs w) (parent (joinpath base (full_name repo)))) then []
          else [([''git'', ''clone'',
                  ''https://'' @ token @ ''@'' @ replace ''https://'' (''https://'' @ token @ ''@'') rest,
                  str_path (joinpath base (full_name repo))], 300)])"
  using assms clone_or_update_repo_runs [of E repo base token w]
    replace_https [of "''https://'' @ token @ ''@''" rest]
  by simp

theorem token_in_clone_argv_witness:
  "clone_url demo_repo = ''https://'' @ ''github.com/alice/foo.git'' \<and>
   runs (trace (snd (clone_or_update_repo
           \<lparr>http = http_pages [], git = git_fatal ''fatal'', environ = demo_environ\<rparr>
           demo_repo demo_base ''T'' \<lparr>fs = demo_fs, trace = []\<rparr>))) =
   [([''git'', ''clone'', ''https://T@github.com/alice/foo.git'', ''repos/alice/foo''], 300)]"
proof -
  have u: "clone_url demo_repo = ''https://'' @ ''github.com/alice/foo.git''"
    by (simp add: demo_repo_def)
  have r: "replace ''https://'' (''https://'' @ ''T'' @ ''@'') ''github.com/alice/foo.git'' =
           ''github.com/alice/foo.git''"
    by (simp add: replace_def)
  show ?thesis
    using u token_in_clone_argv [OF u,
        of "\<lparr>http = http_pages [], git = git_fatal ''fatal'', environ = demo_environ\<rparr>"
           demo_base "''T''" "\<lparr>fs = demo_fs, trace = []\<rparr>"] r
    by (simp add: demo_facts)
qed

text \<open>
  C9 as stated fails: the same clone with the tokens \<^verbatim>\<open>A\<close> and \<^verbatim>\<open>B\<close> spawns two
  different argument vectors.
\<close>

theorem token_changes_clone_argv:
  "runs (trace (snd (clone_or_update_repo
           \<lparr>http = http_pages [], git = git_fatal ''fatal'', environ = demo_environ\<rparr>
           demo_repo demo_base ''A'' \<lparr>fs = demo_fs, trace = []\<rparr>))) \<noteq>
   runs (trace (snd (clone_or_update_repo
           \<lparr>http = http_pages [], git = git_fatal ''fatal'', environ = demo_environ\<rparr>
           demo_repo demo_base ''B'' \<lparr>fs = demo_fs, trace = []\<rparr>)))"
  by (simp add: clone_or_update_repo_runs demo_facts) (simp add: demo_repo_def replace_def)

subsection \<open>Clone, pull, and the directory that is no repository\<close>




subsection \<open>A pull that ends\<close>




subsection \<open>A clone that fails\<close>

text \<open>
  C10. When the target path does not exist, the parent directory has been made and the
  action fails, then the parent directory was a directory when git started, the file
  system the action leaves is exactly the one git left (as it was after \<^verbatim>\<open>mkdir\<close>
  when git could not be started), and the action did nothing after the clone but print
  one report: nothing is rolled back. The witness is a failed clone after which
  \<^verbatim>\<open>repos/alice\<close>, absent before, is on disk.
\<close>

theorem failed_clone_keeps_parent:
  fixes E repo base token w
  defines "p \<equiv> joinpath base (full_name repo)"
  defines "argv \<equiv> [''git'', ''clone'',
                     replace ''https://'' (''https://'' @ token @ ''@'') (clone_url repo), str_path p]"
  assumes "\<not> exists_path (fs w) p"
    and "mkdir True (fs w) (parent p) = Inr f1"
    and "clone_or_update_repo E repo base token w = (False, w')"
  shows "is_dir f1 (parent p) \<and>
         fs w' = (case git E (trace w @ [Mkdir (parent p) True]) argv f1 of
                    NotStarted e \<Rightarrow> f1 | Started b \<Rightarrow> fs_after b) \<and>
         (\<exists>m. new_events w w' = [Mkdir (parent p) True, Run argv 300, Write m])"
proof -
  have d: "is_dir f1 (parent p)"
    using assms(4) by (rule mkdir_is_dir)
  from assms(3,4,5) have
    "fs w' = (case git E (trace w @ [Mkdir (parent p) True]) argv f1 of
                    NotStarted e \<Rightarrow> f1 | Started b \<Rightarrow> fs_after b) \<and>
     (\<exists>m. new_events w w' = [Mkdir (parent p) True, Run argv 300, Write m])"
    unfolding p_def argv_def
    by (auto simp: clone_or_update_repo_def subprocess_run_def handle_exception_def Let_def emit_def
          new_events_def split: sum.splits launch.splits prod.splits if_splits)
  with d show ?thesis by simp
qed

theorem failed_clone_keeps_parent_witness:
  "\<not> exists_path demo_fs demo_target \<and>
   demo_fs (parent demo_target) = None \<and>
   clone_or_update_repo (demo_env (git_fatal ''fatal: unable to access the remote''))
      demo_repo demo_base ''T'' \<lparr>fs = demo_fs, trace = []\<rparr> =
     (False, \<lparr>fs = demo_fs(parent demo_target \<mapsto> PlainDirectory),
              trace = [Mkdir (parent demo_target) True,
                       Run [''git'', ''clone'', ''https://T@github.com/alice/foo.git'', ''repos/alice/foo''] 300,
                       Write (FailedToClone ''alice/foo'' ''fatal: unable to access the remote'')]\<rparr>) \<and>
   is_dir (demo_fs(parent demo_target \<mapsto> PlainDirectory)) (parent demo_target)"
proof -
  let ?E = "demo_env (git_fatal ''fatal: unable to access the remote'')"
  let ?w = "\<lparr>fs = demo_fs, trace = []\<rparr>"
  let ?w' = "\<lparr>fs = demo_fs(parent demo_target \<mapsto> PlainDirectory),
              trace = [Mkdir (parent demo_target) True,
                       Run [''git'', ''clone'', ''https://T@github.com/alice/foo.git'', ''repos/alice/foo''] 300,
                       Write (FailedToClone ''alice/foo'' ''fatal: unable to access the remote'')]\<rparr>"
  have n: "\<not> exists_path (fs ?w) (joinpath demo_base (full_name demo_repo))"
    by (simp add: demo_facts)
  have m: "mkdir True (fs ?w) (parent (joinpath demo_base (full_name demo_repo))) =
           Inr (demo_fs(parent demo_target \<mapsto> PlainDirectory))"
    by (simp add: demo_facts)
  have u: "replace ''https://'' (''https://'' @ ''T'' @ ''@'') (clone_url demo_repo) =
           ''https://T@github.com/alice/foo.git''"
    by (simp add: demo_repo_def replace_def)
  have c: "clone_or_update_repo ?E demo_repo demo_base ''T'' ?w = (False, ?w')"
    using u
    by (simp add: clone_or_update_repo_def subprocess_run_def Let_def emit_def demo_facts
          demo_env_def git_fatal_def exceeds_def strip_texts)
       (simp add: demo_repo_def)
  have a: "demo_fs (parent demo_target) = None"
    by (simp add: demo_fs_def parent_def demo_target_def demo_cwd_def demo_base_def)
  show ?thesis
    using failed_clone_keeps_parent [OF n m c] n a c
    by (simp add: demo_facts)
qed

subsection \<open>Timeouts\<close>

text \<open>
  C6. Every git process of every action runs under \<^verbatim>\<open>timeout=300\<close>. Let the one
  git process of an action, the pull of an existing path or the clone
  after its parent directory was made, overrun 300 seconds or never end. Then that
  process is the only one of the action and runs under \<^verbatim>\<open>timeout=300\<close>, the
  action fails, and its last report is \<^verbatim>\<open>Timeout for <name>\<close>, the report of the
  \<^verbatim>\<open>TimeoutExpired\<close> handler alone. The loop does not stop there: the world it
  ends in is the one reached by running the action of every remaining repository, in
  order, from the world the timed-out action left, every repository is counted once,
  and the failures counted are the failure reports printed.
\<close>

theorem timeout_is_a_failed_action:
  fixes E repo base token w
  defines "p \<equiv> joinpath base (full_name repo)"
  defines "w' \<equiv> snd (clone_or_update_repo E repo base token w)"
  defines "pull \<equiv> [''git'', ''-C'', str_path p, ''pull'']"
  defines "clone \<equiv> [''git'', ''clone'',
                      replace ''https://'' (''https://'' @ token @ ''@'') (clone_url repo), str_path p]"
  assumes overrun:
    "if exists_path (fs w) p
     then \<exists>b. git E (trace w) pull (fs w) = Started b \<and> exceeds 300 b
     else \<exists>f1 b. mkdir True (fs w) (parent p) = Inr f1 \<and>
                 git E (trace w @ [Mkdir (parent p) True]) clone f1 = Started b \<and> exceeds 300 b"
  shows "(\<forall>x \<in> set (runs (new_events u (snd (clone_or_update_repo E' repo' base' token' u)))).
            snd x = 300) \<and>
         runs (new_events w w') = [(if exists_path (fs w) p then pull else clone, 300)] \<and>
         \<not> fst (clone_or_update_repo E repo base token w) \<and>
         last (trace w') = Write (TimeoutFor (full_name repo)) \<and>
         (process_repos E (repo # rest) base token s f w = (s', f', w'') \<longrightarrow>
            w'' = foldl (\<lambda>v r. snd (clone_or_update_repo E r base token v)) w' rest \<and>
            s' + f' = s + f + 1 + length rest \<and>
            f' = f + length (filter is_failure (new_events w w'')))"
proof -
  have r: "\<not> fst (clone_or_update_repo E repo base token w) \<and>
           last (trace w') = Write (TimeoutFor (full_name repo))"
  proof (cases "exists_path (fs w) p")
    case True
    with overrun show ?thesis
      unfolding w'_def p_def pull_def
      by (auto simp: clone_or_update_repo_def subprocess_run_def handle_exception_def Let_def emit_def)
  next
    case False
    with overrun show ?thesis
      unfolding w'_def p_def clone_def
      by (auto simp: clone_or_update_repo_def subprocess_run_def handle_exception_def Let_def emit_def)
  qed
  have t: "runs (new_events w w') = [(if exists_path (fs w) p then pull else clone, 300)]"
    using overrun new_events_runs [of w E repo base token]
    unfolding w'_def p_def pull_def clone_def by (auto split: if_splits)
  have l: "w'' = foldl (\<lambda>v r. snd (clone_or_update_repo E r base token v)) w' rest \<and>
            s' + f' = s + f + 1 + length rest \<and>
            f' = f + length (filter is_failure (new_events w w''))"
    if pr: "process_repos E (repo # rest) base token s f w = (s', f', w'')"
  proof -
    from process_repos_fold [OF pr] have a: "w'' = foldl (\<lambda>v r. snd (clone_or_update_repo E r base token v)) w' rest"
      unfolding w'_def by simp
    from process_repos_total [OF pr] have b: "s' + f' = s + f + 1 + length rest" by simp
    from process_repos_reports [OF pr] have c: "f' = f + length (filter is_failure (new_events w w''))"
      by (auto simp: new_events_def)
    from a b c show ?thesis by simp
  qed
  have q: "\<forall>x \<in> set (runs (new_events u (snd (clone_or_update_repo E' repo' base' token' u)))).
            snd x = 300"
    using new_events_runs [of u E' repo' base' token'] by (auto split: if_splits)
  from q r t l show ?thesis by blast
qed

theorem timeout_is_a_failed_action_witness:
  "\<not> exists_path demo_fs demo_target \<and>
   mkdir True demo_fs (parent demo_target) = Inr (demo_fs(parent demo_target \<mapsto> PlainDirectory)) \<and>
   exceeds 300 \<lparr>runtime = None, returncode = 0, stdout = [], stderr = [],
                fs_after = demo_fs(parent demo_target \<mapsto> PlainDirectory)\<rparr> \<and>
   clone_or_update_repo (demo_env git_hangs_on_foo) demo_repo demo_base ''T''
      \<lparr>fs = demo_fs, trace = []\<rparr> =
     (False, \<lparr>fs = demo_fs(parent demo_target \<mapsto> PlainDirectory),
              trace = [Mkdir (parent demo_target) True,
                       Run [''git'', ''clone'', ''https://T@github.com/alice/foo.git'', ''repos/alice/foo''] 300,
                       Write (TimeoutFor ''alice/foo'')]\<rparr>) \<and>
   process_repos (demo_env git_hangs_on_foo) [demo_repo, second_repo] demo_base ''T'' 0 0
      \<lparr>fs = demo_fs, trace = []\<rparr> =
     (1, 1, \<lparr>fs = demo_fs(parent demo_target \<mapsto> PlainDirectory,
                         parent second_target \<mapsto> PlainDirectory),
             trace = [Mkdir (parent demo_target) True,
                      Run [''git'', ''clone'', ''https://T@github.com/alice/foo.git'', ''repos/alice/foo''] 300,
                      Write (TimeoutFor ''alice/foo''),
                      Mkdir (parent second_target) True,
                      Run [''git'', ''clone'', ''https://T@github.com/bob/bar.git'', ''repos/bob/bar''] 300]\<rparr>)"
proof -
  let ?E = "demo_env git_hangs_on_foo"
  let ?w = "\<lparr>fs = demo_fs, trace = []\<rparr>"
  let ?f1 = "demo_fs(parent demo_target \<mapsto> PlainDirectory)"
  let ?b = "\<lparr>runtime = None, returncode = 0, stdout = [], stderr = [], fs_after = ?f1\<rparr>"
  have x: "exceeds 300 ?b" by (simp add: exceeds_def)
  have g: "git ?E (trace ?w @ [Mkdir (parent (joinpath demo_base (full_name demo_repo))) True])
             [''git'', ''clone'',
              replace ''https://'' (''https://'' @ ''T'' @ ''@'') (clone_url demo_repo),
              str_path (joinpath demo_base (full_name demo_repo))] ?f1 = Started ?b"
    using demo_clone_url by (simp add: demo_env_def git_hangs_on_foo_def demo_facts)
  have o: "if exists_path (fs ?w) (joinpath demo_base (full_name demo_repo))
     then \<exists>b. git ?E (trace ?w)
                 [''git'', ''-C'', str_path (joinpath demo_base (full_name demo_repo)), ''pull'']
                 (fs ?w) = Started b \<and> exceeds 300 b
     else \<exists>f1 b. mkdir True (fs ?w) (parent (joinpath demo_base (full_name demo_repo))) = Inr f1 \<and>
                 git ?E (trace ?w @ [Mkdir (parent (joinpath demo_base (full_name demo_repo))) True])
                   [''git'', ''clone'',
                    replace ''https://'' (''https://'' @ ''T'' @ ''@'') (clone_url demo_repo),
                    str_path (joinpath demo_base (full_name demo_repo))] f1 = Started b \<and>
                 exceeds 300 b"
    using g x by (simp add: demo_facts)
  have pr: "process_repos ?E [demo_repo, second_repo] demo_base ''T'' 0 0 ?w =
     (1, 1, \<lparr>fs = demo_fs(parent demo_target \<mapsto> PlainDirectory,
                         parent second_target \<mapsto> PlainDirectory),
             trace = [Mkdir (parent demo_target) True,
                      Run [''git'', ''clone'', ''https://T@github.com/alice/foo.git'', ''repos/alice/foo''] 300,
                      Write (TimeoutFor ''alice/foo''),
                      Mkdir (parent second_target) True,
                      Run [''git'', ''clone'', ''https://T@github.com/bob/bar.git'', ''repos/bob/bar''] 300]\<rparr>)"
    by (simp add: timed_out_clone clone_after_timeout)
  show ?thesis
    using timeout_is_a_failed_action [OF o, where rest = "[second_repo]" and s = 0 and f = 0]
      x pr timed_out_clone
    by (simp add: demo_facts)
qed

subsection \<open>Pagination\<close>

text \<open>
  C2, as the code has it. When the server answers the pages 1 to \<open>n\<close> with status 200
  and pages that are not empty, and page \<open>n + 1\<close> with status 200 and an empty page, the
  enumeration returns, successfully, the concatenation of the \<open>n\<close> pages, and it has
  asked for the pages 1 to \<open>n + 1\<close>: only the empty page ends it (lines 42-47), however
  short the page before was. For the pages of sizes 100, 100 and 37 that is 237 repositories after four
  requests.
\<close>

theorem enumeration_ends_on_the_empty_page:
  assumes "\<And>h k. k < length pages \<Longrightarrow>
             \<exists>r. http E h (listing_request token (Suc k)) = Inr r \<and> status_code r = 200 \<and>
                 json r = Some (pages ! k)"
    and "[] \<notin> set pages"
    and "\<And>h. \<exists>r. http E h (listing_request token (Suc (length pages))) = Inr r \<and>
                 status_code r = 200 \<and> json r = Some []"
  shows "\<exists>w'. get_github_repos E token w = Some (Inr (concat pages), w') \<and>
              requested_pages (new_events w w') = [1 ..< length pages + 2]"
proof -
  let ?v = "emit [Write FetchingRepositoryList] w"
  from loop_pages [of pages E token 1 "[]" ?v] assms obtain w' where
    w': "get_github_repos_loop E token 1 [] ?v = Some (Inr (concat pages), w')"
      "requested_pages (new_events ?v w') = [1 ..< 1 + length pages + 1]"
    by auto
  from loop_listing [OF w'(1)] obtain new where n: "trace w' = trace ?v @ new" by auto
  from w'(2) n have "requested_pages (new_events w w') = [1 ..< length pages + 2]"
    by (simp add: new_events_def)
  with w'(1) show ?thesis by (auto simp: get_github_repos_def)
qed

theorem enumeration_ends_on_the_empty_page_witness:
  "[] \<notin> set pages_237 \<and> map length pages_237 = [100, 100, 37] \<and>
   (\<exists>w'. get_github_repos (paging_env pages_237) ''T'' \<lparr>fs = demo_fs, trace = []\<rparr> =
            Some (Inr (concat pages_237), w') \<and>
         requested_pages (new_events \<lparr>fs = demo_fs, trace = []\<rparr> w') = [1, 2, 3, 4]) \<and>
   length (concat pages_237) = 237"
proof -
  have l: "length pages_237 = 3" by (simp add: pages_237_def)
  have a: "\<And>h k. k < length pages_237 \<Longrightarrow>
             \<exists>r. http (paging_env pages_237) h (listing_request ''T'' (Suc k)) = Inr r \<and>
                 status_code r = 200 \<and> json r = Some (pages_237 ! k)"
    by (simp add: paging_env_def http_pages_serves)
  have b: "\<And>h. \<exists>r. http (paging_env pages_237) h (listing_request ''T'' (Suc (length pages_237))) = Inr r \<and>
                 status_code r = 200 \<and> json r = Some []"
    by (simp add: paging_env_def http_pages_end)
  have u: "[1 ..< length pages_237 + 2] = [1, 2, 3, 4]"
    by (simp add: l upt_rec)
  show ?thesis
    using enumeration_ends_on_the_empty_page
        [OF a pages_237_facts(2) b, of "\<lparr>fs = demo_fs, trace = []\<rparr>", unfolded u]
      pages_237_facts
    by simp
qed

text \<open>
  C2 as stated fails on where the enumeration stops: after the short third page of 37
  it asks for page 4.
\<close>

theorem short_page_is_followed_by_a_request:
  "map length pages_237 = [100, 100, 37] \<and>
   pages_asked (paging_env pages_237) ''T'' \<lparr>fs = demo_fs, trace = []\<rparr> = Some [1, 2, 3, 4]"
proof -
  have l: "length pages_237 = 3" by (simp add: pages_237_def)
  have a: "\<And>h k. k < length pages_237 \<Longrightarrow>
             \<exists>r. http (paging_env pages_237) h (listing_request ''T'' (1 + k)) = Inr r \<and>
                 status_code r = 200 \<and> json r = Some (pages_237 ! k)"
    by (simp add: paging_env_def http_pages_serves)
  have b: "\<And>h. \<exists>r. http (paging_env pages_237) h (listing_request ''T'' (1 + length pages_237)) = Inr r \<and>
                 status_code r = 200 \<and> json r = Some []"
    by (simp add: paging_env_def http_pages_end)
  let ?w = "\<lparr>fs = demo_fs, trace = []\<rparr>"
  let ?v = "emit [Write FetchingRepositoryList] ?w"
  from loop_pages [OF a pages_237_facts(2) b, of "[]" ?v] obtain w' where
    w': "get_github_repos_loop (paging_env pages_237) ''T'' 1 [] ?v = Some (Inr (concat pages_237), w')"
      "requested_pages (new_events ?v w') = [1 ..< 1 + length pages_237 + 1]"
    by auto
  from loop_listing [OF w'(1)] obtain new where n: "trace w' = trace ?v @ new" by auto
  from w'(2) n have "requested_pages (new_events ?w w') = [1, 2, 3, 4]"
    by (simp add: new_events_def l upt_rec)
  with w'(1) show ?thesis
    by (simp add: pages_asked_def get_github_repos_def pages_237_facts)
qed

subsection \<open>Rate limits\<close>

text \<open>
  C5, as the code has it. However long the enumeration is watched, what it has done is
  a sequence of requests, each but the last followed by a progress line and a sleep of
  exactly half a second (line 56) before the next request; the watched loop and the loop
  itself end with the same result and world; and an enumeration that has ended has done
  just that after its opening line, ending on a request. A page fetch that is answered with any
  status other than 200, a rate-limit response among them, ends the enumeration at once
  with the API error of line 37: no sleep, no second request.
\<close>

theorem failure_is_immediate_and_requests_are_paced:
  "(\<exists>evs. trace (snd (get_github_repos_steps n E token pg repos w)) = trace w @ evs \<and>
          listing_prefix evs) \<and>
   (get_github_repos_loop E token pg repos w = Some (res, w') \<longleftrightarrow>
      (\<exists>k. get_github_repos_steps k E token pg repos w = (Some res, w'))) \<and>
   (get_github_repos E token u = Some (res, u') \<longrightarrow>
      (\<exists>evs. new_events u u' = Write FetchingRepositoryList # evs \<and> listing_trace evs)) \<and>
   (http E (trace v) (listing_request token pg) = Inr r \<and> status_code r \<noteq> 200 \<longrightarrow>
      get_github_repos_loop E token pg repos v =
        Some (Inl (GitHubAPIError (status_code r) (body r)), emit [HttpGet (listing_request token pg)] v))"
proof (intro conjI impI)
  show "\<exists>evs. trace (snd (get_github_repos_steps n E token pg repos w)) = trace w @ evs \<and>
          listing_prefix evs"
    using steps_prefix [of n E token pg repos w] by blast
next
  show "get_github_repos_loop E token pg repos w = Some (res, w') \<longleftrightarrow>
      (\<exists>k. get_github_repos_steps k E token pg repos w = (Some res, w'))"
    using loop_steps [of E token pg repos w "(res, w')"] steps_loop [of _ E token pg repos w res w']
    by auto
next
  assume "get_github_repos E token u = Some (res, u')"
  from get_github_repos_listing [OF this] obtain new where
    "trace u' = trace u @ Write FetchingRepositoryList # new" "listing_trace new"
    by auto
  then show "\<exists>evs. new_events u u' = Write FetchingRepositoryList # evs \<and> listing_trace evs"
    by (simp add: new_events_def)
next
  assume "http E (trace v) (listing_request token pg) = Inr r \<and> status_code r \<noteq> 200"
  then show "get_github_repos_loop E token pg repos v =
        Some (Inl (GitHubAPIError (status_code r) (body r)), emit [HttpGet (listing_request token pg)] v)"
    by (subst get_github_repos_loop.simps) simp
qed

theorem failure_is_immediate_and_requests_are_paced_witness:
  "get_github_repos_steps (Suc (Suc 0)) endless_env ''T'' 1 [] \<lparr>fs = demo_fs, trace = []\<rparr> =
     (None, \<lparr>fs = demo_fs,
             trace = [HttpGet (listing_request ''T'' 1), Write (FoundSoFar 1), Sleep 500,
                      HttpGet (listing_request ''T'' 2), Write (FoundSoFar 2), Sleep 500]\<rparr>) \<and>
   listing_prefix [HttpGet (listing_request ''T'' 1), Write (FoundSoFar 1), Sleep 500,
                   HttpGet (listing_request ''T'' 2), Write (FoundSoFar 2), Sleep 500] \<and>
   get_github_repos (paging_env [[demo_repo, second_repo]]) ''T'' \<lparr>fs = demo_fs, trace = []\<rparr> =
     Some (Inr [demo_repo, second_repo],
           \<lparr>fs = demo_fs,
            trace = [Write FetchingRepositoryList, HttpGet (listing_request ''T'' 1),
                     Write (FoundSoFar 2), Sleep 500, HttpGet (listing_request ''T'' 2)]\<rparr>) \<and>
   listing_trace [HttpGet (listing_request ''T'' 1), Write (FoundSoFar 2), Sleep 500,
                  HttpGet (listing_request ''T'' 2)] \<and>
   http throttled_env [] (listing_request ''T'' 1) =
     Inr \<lparr>status_code = 429, body = ''API rate limit exceeded'', json = None\<rparr> \<and>
   get_github_repos_loop throttled_env ''T'' 1 [] \<lparr>fs = demo_fs, trace = []\<rparr> =
     Some (Inl (GitHubAPIError 429 ''API rate limit exceeded''),
           \<lparr>fs = demo_fs, trace = [HttpGet (listing_request ''T'' 1)]\<rparr>)"
proof -
  let ?w = "\<lparr>fs = demo_fs, trace = []\<rparr>"
  have h: "http throttled_env (trace ?w) (listing_request ''T'' 1) =
     Inr \<lparr>status_code = 429, body = ''API rate limit exceeded'', json = None\<rparr>"
    by (simp add: throttled_env_def http_rate_limited_def)
  note a = failure_is_immediate_and_requests_are_paced
      [where n = "Suc (Suc 0)" and E = endless_env and token = "''T''" and pg = 1 and repos = "[]"
         and w = ?w, THEN conjunct1]
  note b = failure_is_immediate_and_requests_are_paced
      [where E = "paging_env [[demo_repo, second_repo]]" and token = "''T''" and u = ?w
         and res = "Inr [demo_repo, second_repo]"
         and u' = "\<lparr>fs = demo_fs,
            trace = [Write FetchingRepositoryList, HttpGet (listing_request ''T'' 1),
                     Write (FoundSoFar 2), Sleep 500, HttpGet (listing_request ''T'' 2)]\<rparr>",
         THEN conjunct2, THEN conjunct2, THEN conjunct1]
  note c = failure_is_immediate_and_requests_are_paced
      [where E = throttled_env and token = "''T''" and v = ?w and pg = 1 and repos = "[]"
         and r = "\<lparr>status_code = 429, body = ''API rate limit exceeded'', json = None\<rparr>",
         THEN conjunct2, THEN conjunct2, THEN conjunct2]
  from a endless_steps have p: "listing_prefix [HttpGet (listing_request ''T'' 1), Write (FoundSoFar 1), Sleep 500,
                   HttpGet (listing_request ''T'' 2), Write (FoundSoFar 2), Sleep 500]"
    by simp
  from b two_repos_listing have t: "listing_trace [HttpGet (listing_request ''T'' 1), Write (FoundSoFar 2), Sleep 500,
                  HttpGet (listing_request ''T'' 2)]"
    by (simp add: new_events_def)
  from c h have l: "get_github_repos_loop throttled_env ''T'' 1 [] ?w =
     Some (Inl (GitHubAPIError 429 ''API rate limit exceeded''),
           \<lparr>fs = demo_fs, trace = [HttpGet (listing_request ''T'' 1)]\<rparr>)"
    by (simp add: emit_def)
  from p t l h endless_steps two_repos_listing show ?thesis by simp
qed

text \<open>
  C5 as stated fails on the back-off: against a server that answers 429, the enumeration
  is over after its first request.
\<close>

theorem rate_limited_enumeration_fails_without_retry:
  "get_github_repos throttled_env ''T'' \<lparr>fs = demo_fs, trace = []\<rparr> =
     Some (Inl (GitHubAPIError 429 ''API rate limit exceeded''),
           \<lparr>fs = demo_fs,
            trace = [Write FetchingRepositoryList, HttpGet (listing_request ''T'' 1)]\<rparr>)"
  by (rule throttled_listing)

subsection \<open>The exit code of a pass\<close>

text \<open>
  C7, as the code has it. The value \<^verbatim>\<open>main\<close> returns for a pass is 0 exactly when
  the pass printed no failure report of an action and no fatal error, and 1 otherwise.
  Failure reports are the four lines an action prints when it returns \<^verbatim>\<open>False\<close>,
  one per failed action; the fatal errors are the enumeration error of line 233 and the
  missing token of line 168. The driver drops that value (line 239): after the pass the
  process is still running, without an exit status, it has printed its line and slept
  24 hours, and it goes on from there whatever the value was.
\<close>

theorem exit_code_of_a_pass:
  assumes "main E w = Some (Inr code, w')"
  shows "code = (if filter is_failure (new_events w w') = [] \<and> filter is_fatal (new_events w w') = []
                 then 0 else 1) \<and>
         driver (Suc 0) E w =
           Some (Running (emit [Write SleepingFor24Hours, Sleep (24 * 60 * 60 * 1000)] w')) \<and>
         exit_code (Running (emit [Write SleepingFor24Hours, Sleep (24 * 60 * 60 * 1000)] w')) = None \<and>
         driver (Suc n) E w =
           driver n E (emit [Write SleepingFor24Hours, Sleep (24 * 60 * 60 * 1000)] w')"
  using main_code [OF assms] assms by simp

theorem exit_code_of_a_pass_witness:
  "main (paging_env []) \<lparr>fs = demo_fs, trace = []\<rparr> =
     Some (Inr 0, \<lparr>fs = demo_fs,
                   trace = [Mkdir demo_base False, Write (BackingUpTo demo_base),
                            Write FetchingRepositoryList, HttpGet (listing_request ''T'' 1),
                            Write (FoundTotal 0), Write (Summary 0 0)]\<rparr>) \<and>
   driver (Suc 0) (paging_env []) \<lparr>fs = demo_fs, trace = []\<rparr> =
     Some (Running
       \<lparr>fs = demo_fs,
        trace = [Mkdir demo_base False, Write (BackingUpTo demo_base),
                 Write FetchingRepositoryList, HttpGet (listing_request ''T'' 1),
                 Write (FoundTotal 0), Write (Summary 0 0),
                 Write SleepingFor24Hours, Sleep 86400000]\<rparr>) \<and>
   main (paging_env [[demo_repo]]) \<lparr>fs = demo_fs, trace = []\<rparr> =
     Some (Inr 1, \<lparr>fs = demo_fs(parent demo_target \<mapsto> PlainDirectory),
                   trace = [Mkdir demo_base False, Write (BackingUpTo demo_base),
                            Write FetchingRepositoryList, HttpGet (listing_request ''T'' 1),
                            Write (FoundSoFar 1), Sleep 500, HttpGet (listing_request ''T'' 2),
                            Write (FoundTotal 1),
                            Mkdir (parent demo_target) True,
                            Run [''git'', ''clone'', ''https://T@github.com/alice/foo.git'',
                                 ''repos/alice/foo''] 300,
                            Write (FailedToClone ''alice/foo'' ''fatal''),
                            Write (Summary 0 1)]\<rparr>) \<and>
   filter is_failure
     [Mkdir demo_base False, Write (BackingUpTo demo_base),
      Write FetchingRepositoryList, HttpGet (listing_request ''T'' 1),
      Write (FoundSoFar 1), Sleep 500, HttpGet (listing_request ''T'' 2),
      Write (FoundTotal 1),
      Mkdir (parent demo_target) True,
      Run [''git'', ''clone'', ''https://T@github.com/alice/foo.git'', ''repos/alice/foo''] 300,
      Write (FailedToClone ''alice/foo'' ''fatal''),
      Write (Summary 0 1)] = [Write (FailedToClone ''alice/foo'' ''fatal'')] \<and>
   driver (Suc 0) (paging_env [[demo_repo]]) \<lparr>fs = demo_fs, trace = []\<rparr> =
     Some (Running
       \<lparr>fs = demo_fs(parent demo_target \<mapsto> PlainDirectory),
        trace = [Mkdir demo_base False, Write (BackingUpTo demo_base),
                 Write FetchingRepositoryList, HttpGet (listing_request ''T'' 1),
                 Write (FoundSoFar 1), Sleep 500, HttpGet (listing_request ''T'' 2),
                 Write (FoundTotal 1),
                 Mkdir (parent demo_target) True,
                 Run [''git'', ''clone'', ''https://T@github.com/alice/foo.git'',
                      ''repos/alice/foo''] 300,
                 Write (FailedToClone ''alice/foo'' ''fatal''),
                 Write (Summary 0 1),
                 Write SleepingFor24Hours, Sleep 86400000]\<rparr>)"
  using exit_code_of_a_pass [OF empty_pass, of 0] exit_code_of_a_pass [OF failing_pass, of 0]
    empty_pass failing_pass
  by (simp add: new_events_def emit_def)

text \<open>
  C7 as stated fails on the process exit code: after a pass without a failure, and
  after a pass with a failed clone, the process has not exited and has no exit code.
\<close>

theorem a_pass_sets_no_exit_code:
  "main (paging_env []) \<lparr>fs = demo_fs, trace = []\<rparr> =
     Some (Inr 0, \<lparr>fs = demo_fs,
                   trace = [Mkdir demo_base False, Write (BackingUpTo demo_base),
                            Write FetchingRepositoryList, HttpGet (listing_request ''T'' 1),
                            Write (FoundTotal 0), Write (Summary 0 0)]\<rparr>) \<and>
   map_option exit_code (driver (Suc 0) (paging_env []) \<lparr>fs = demo_fs, trace = []\<rparr>) = Some None \<and>
   map_option exit_code (driver (Suc 0) (paging_env [[demo_repo]]) \<lparr>fs = demo_fs, trace = []\<rparr>)
     = Some None"
  by (simp add: empty_pass failing_pass)

subsection \<open>A failed enumeration and the driver\<close>

text \<open>
  C8. When the token is set, the base directory is there and the enumeration raises, the
  pass returns 1 after the fatal-error line without a single git process and without a
  change to the file system; the driver then prints its line, sleeps 24 hours and goes
  on with the next round. That step of the driver is the same whatever code a pass
  returned.
\<close>

theorem enumeration_failure_ends_the_pass_not_the_driver:
  assumes "environ E ''GITHUB_TOKEN'' = Some token" and "token \<noteq> []"
    and "mkdir False (fs w)
           (parse_path (case environ E ''REPOS_DIR'' of None \<Rightarrow> ''repos'' | Some d \<Rightarrow> d)) = Inr f1"
    and "get_github_repos E token
           \<lparr>fs = f1,
            trace = trace w @
              [Mkdir (parse_path (case environ E ''REPOS_DIR'' of None \<Rightarrow> ''repos'' | Some d \<Rightarrow> d)) False,
               Write (BackingUpTo
                 (parse_path (case environ E ''REPOS_DIR'' of None \<Rightarrow> ''repos'' | Some d \<Rightarrow> d)))]\<rparr>
         = Some (Inl e, w2)"
  shows "main E w = Some (Inr 1, emit [Write (FatalError e)] w2) \<and>
         runs (new_events w (emit [Write (FatalError e)] w2)) = [] \<and>
         fs w2 = f1 \<and>
         driver (Suc n) E w =
           driver n E (emit [Write SleepingFor24Hours, Sleep (24 * 60 * 60 * 1000)]
                        (emit [Write (FatalError e)] w2)) \<and>
         (main E' v = Some (Inr code, v') \<longrightarrow>
            driver (Suc m) E' v =
              driver m E' (emit [Write SleepingFor24Hours, Sleep (24 * 60 * 60 * 1000)] v'))"
proof -
  from assms have m: "main E w = Some (Inr 1, emit [Write (FatalError e)] w2)"
    by (simp add: main_def Let_def)
  from get_github_repos_listing [OF assms(4)] obtain lst where
    l: "trace w2 = trace w @
          [Mkdir (parse_path (case environ E ''REPOS_DIR'' of None \<Rightarrow> ''repos'' | Some d \<Rightarrow> d)) False,
           Write (BackingUpTo
             (parse_path (case environ E ''REPOS_DIR'' of None \<Rightarrow> ''repos'' | Some d \<Rightarrow> d)))] @
          Write FetchingRepositoryList # lst"
      "listing_trace lst" "fs w2 = f1"
    by auto
  from l have r: "runs (new_events w (emit [Write (FatalError e)] w2)) = []"
    by (simp add: new_events_def runs_append listing_trace_runs)
  from m have d: "driver (Suc n) E w =
           driver n E (emit [Write SleepingFor24Hours, Sleep (24 * 60 * 60 * 1000)]
                        (emit [Write (FatalError e)] w2))"
    by simp
  have g: "main E' v = Some (Inr code, v') \<longrightarrow>
            driver (Suc m) E' v =
              driver m E' (emit [Write SleepingFor24Hours, Sleep (24 * 60 * 60 * 1000)] v')"
    by simp
  from m r l(3) d g show ?thesis by blast
qed

theorem enumeration_failure_ends_the_pass_not_the_driver_witness:
  "environ throttled_env ''GITHUB_TOKEN'' = Some ''T'' \<and>
   main throttled_env \<lparr>fs = demo_fs, trace = []\<rparr> =
     Some (Inr 1, \<lparr>fs = demo_fs,
                   trace = [Mkdir demo_base False, Write (BackingUpTo demo_base),
                            Write FetchingRepositoryList, HttpGet (listing_request ''T'' 1),
                            Write (FatalError (GitHubAPIError 429 ''API rate limit exceeded''))]\<rparr>) \<and>
   driver (Suc (Suc 0)) throttled_env \<lparr>fs = demo_fs, trace = []\<rparr> =
     Some (Running
       \<lparr>fs = demo_fs,
        trace = [Mkdir demo_base False, Write (BackingUpTo demo_base),
                 Write FetchingRepositoryList, HttpGet (listing_request ''T'' 1),
                 Write (FatalError (GitHubAPIError 429 ''API rate limit exceeded'')),
                 Write SleepingFor24Hours, Sleep 86400000,
                 Mkdir demo_base False, Write (BackingUpTo demo_base),
                 Write FetchingRepositoryList, HttpGet (listing_request ''T'' 1),
                 Write (FatalError (GitHubAPIError 429 ''API rate limit exceeded'')),
                 Write SleepingFor24Hours, Sleep 86400000]\<rparr>) \<and>
   driver (Suc 0) (paging_env []) \<lparr>fs = demo_fs, trace = []\<rparr> =
     Some (Running
       \<lparr>fs = demo_fs,
        trace = [Mkdir demo_base False, Write (BackingUpTo demo_base),
                 Write FetchingRepositoryList, HttpGet (listing_request ''T'' 1),
                 Write (FoundTotal 0), Write (Summary 0 0),
                 Write SleepingFor24Hours, Sleep 86400000]\<rparr>)"
proof -
  let ?w = "\<lparr>fs = demo_fs, trace = []\<rparr>"
  let ?e = "GitHubAPIError 429 ''API rate limit exceeded''"
  have t: "environ throttled_env ''GITHUB_TOKEN'' = Some ''T''"
    by (simp add: throttled_env_def demo_environ_def)
  have n: "''T'' \<noteq> []" by simp
  have b: "parse_path (case environ throttled_env ''REPOS_DIR'' of None \<Rightarrow> ''repos'' | Some d \<Rightarrow> d)
           = demo_base"
    by (simp add: throttled_env_def demo_base_dir)
  have m: "mkdir False (fs ?w)
           (parse_path (case environ throttled_env ''REPOS_DIR'' of None \<Rightarrow> ''repos'' | Some d \<Rightarrow> d))
           = Inr demo_fs"
    by (simp add: b mkdir_base)
  have g: "get_github_repos throttled_env ''T''
           \<lparr>fs = demo_fs,
            trace = trace ?w @
              [Mkdir (parse_path (case environ throttled_env ''REPOS_DIR'' of
                                     None \<Rightarrow> ''repos'' | Some d \<Rightarrow> d)) False,
               Write (BackingUpTo
                 (parse_path (case environ throttled_env ''REPOS_DIR'' of
                                 None \<Rightarrow> ''repos'' | Some d \<Rightarrow> d)))]\<rparr>
         = Some (Inl ?e,
                 \<lparr>fs = demo_fs,
                  trace = [Mkdir demo_base False, Write (BackingUpTo demo_base),
                           Write FetchingRepositoryList, HttpGet (listing_request ''T'' 1)]\<rparr>)"
    unfolding b
    by (simp add: get_github_repos_def get_github_repos_loop.simps throttled_env_def
          http_rate_limited_def emit_def)
  show ?thesis
    using t
      enumeration_failure_ends_the_pass_not_the_driver
        [OF t n m g, where n = "Suc 0" and E' = "paging_env []" and v = ?w and code = 0
           and m = 0]
      empty_pass throttled_pass
    by (simp add: emit_def demo_base_dir)
qed

subsection \<open>Target paths\<close>




end
